theory Spec2Isabelle
  imports Complex_Main "HOL-Library.Log_Nat"
begin

section \<open>Values of the program\<close>

text \<open>
  The program works on decoded JSON: \<^verbatim>\<open>None\<close>, booleans, integers, floats, strings,
  lists and dictionaries. A dictionary is the list of its items in insertion order, with
  pairwise distinct keys, as a decoded JSON object has them. Python's integers are
  unbounded (\<open>int\<close>). A finite Python float is the rational it denotes, and every
  operation on floats rounds its exact result to the nearest double (\<open>fl\<close> below), or
  raises \<^verbatim>\<open>OverflowError\<close> where Python does. The \<open>JFloat\<close> of a decoded document
  holds a double, so the literal \<^verbatim>\<open>0.4\<close> is \<open>JFloat (fl (2 / 5))\<close>; infinities and NaN are
  not modelled. The characters of a string are code points below 256.
\<close>

datatype json =
    JNull
  | JBool bool
  | JInt int
  | JFloat rat
  | JStr string
  | JList "json list"
  | JObj "(string \<times> json) list"

datatype error = AttributeError | TypeError | ValueError | KeyError | OverflowError

text \<open>Sequencing of a computation that may raise: the first exception ends it.\<close>

fun then_do :: "error + 'a \<Rightarrow> ('a \<Rightarrow> error + 'b) \<Rightarrow> error + 'b" where
  "then_do (Inl e) f = Inl e"
| "then_do (Inr x) f = f x"

fun map_res :: "('a \<Rightarrow> error + 'b) \<Rightarrow> 'a list \<Rightarrow> error + 'b list" where
  "map_res f [] = Inr []"
| "map_res f (x # xs) = then_do (f x) (\<lambda>y. then_do (map_res f xs) (\<lambda>ys. Inr (y # ys)))"

text \<open>Truth value testing (\<^verbatim>\<open>if x\<close>, \<^verbatim>\<open>x or y\<close>, \<^verbatim>\<open>bool(x)\<close>).\<close>

fun truthy :: "json \<Rightarrow> bool" where
  "truthy JNull = False"
| "truthy (JBool b) = b"
| "truthy (JInt i) = (i \<noteq> 0)"
| "truthy (JFloat q) = (q \<noteq> 0)"
| "truthy (JStr s) = (s \<noteq> [])"
| "truthy (JList xs) = (xs \<noteq> [])"
| "truthy (JObj kvs) = (kvs \<noteq> [])"

definition py_or :: "json \<Rightarrow> json \<Rightarrow> json" where
  "py_or a b = (if truthy a then a else b)"

text \<open>\<^verbatim>\<open>d.get(k, default)\<close> on a dictionary; on any other value the attribute
  \<^verbatim>\<open>get\<close> does not exist.\<close>

definition dget :: "(string \<times> json) list \<Rightarrow> string \<Rightarrow> json \<Rightarrow> json" where
  "dget kvs k d = (case map_of kvs k of None \<Rightarrow> d | Some v \<Rightarrow> v)"

fun dict_get :: "json \<Rightarrow> string \<Rightarrow> json \<Rightarrow> error + json" where
  "dict_get (JObj kvs) k d = Inr (dget kvs k d)"
| "dict_get _ k d = Inl AttributeError"

text \<open>Iteration (\<^verbatim>\<open>for x in v\<close>, \<^verbatim>\<open>list.extend(v)\<close>): a list gives its elements, a
  dictionary its keys, a string its characters; nothing else is iterable.\<close>

fun py_iter :: "json \<Rightarrow> error + json list" where
  "py_iter (JList xs) = Inr xs"
| "py_iter (JObj kvs) = Inr (map (\<lambda>kv. JStr (fst kv)) kvs)"
| "py_iter (JStr s) = Inr (map (\<lambda>c. JStr [c]) s)"
| "py_iter _ = Inl TypeError"

subsection \<open>Numbers\<close>

text \<open>
  The nearest integer to a rational, ties to the even one.
\<close>

definition round_half_even :: "rat \<Rightarrow> int" where
  "round_half_even q =
     (let f = \<lfloor>q\<rfloor>; d = q - of_int f
      in if d < 1 / 2 then f else if 1 / 2 < d then f + 1 else if even f then f else f + 1)"

text \<open>
  Floats. \<open>exponent q\<close> is the binary exponent of a nonzero rational: the \<open>e\<close> with
  \<open>2\<^sup>e \<le> \<bar>q\<bar> < 2\<^sup>e\<^sup>+\<^sup>1\<close>. \<open>fl q\<close> is the double nearest to \<open>q\<close>: \<open>q\<close> rounded, ties to even, to
  a multiple of \<open>2\<^sup>e\<^sup>-\<^sup>5\<^sup>2\<close> (a significand of 53 bits), and to a multiple of \<open>2\<^sup>-\<^sup>1\<^sup>0\<^sup>7\<^sup>4\<close> in the
  subnormal range. The exponent of \<open>fl\<close> is not bounded above: \<open>too_large q\<close> says that the
  rounded value is beyond the largest double, which is where Python raises
  \<^verbatim>\<open>OverflowError\<close>.
\<close>

definition exponent :: "rat \<Rightarrow> int" where
  "exponent q =
     (let a = fst (quotient_of \<bar>q\<bar>); b = snd (quotient_of \<bar>q\<bar>);
          e = int (floorlog 2 (nat a)) - int (floorlog 2 (nat b))
      in if power_int 2 e \<le> \<bar>q\<bar> then e else e - 1)"

definition fl :: "rat \<Rightarrow> rat" where
  "fl q =
     (if q = 0 then 0
      else let t = max (exponent q - 52) (- 1074)
           in of_int (round_half_even (q / power_int 2 t)) * power_int 2 t)"

definition too_large :: "rat \<Rightarrow> bool" where
  "too_large q = (2 ^ 1024 \<le> \<bar>fl q\<bar>)"

text \<open>\<^verbatim>\<open>n / d\<close> on integers, for a divisor that is not zero (the program divides by 100 and
  by 1): the double nearest to the quotient, or \<^verbatim>\<open>OverflowError\<close>.\<close>

definition int_truediv :: "int \<Rightarrow> int \<Rightarrow> error + rat" where
  "int_truediv n d =
     (let q = of_int n / of_int d
      in if too_large q then Inl OverflowError else Inr (fl q))"

text \<open>\<^verbatim>\<open>x / 100\<close>: true division, defined on numbers (a boolean is a number). A float
  divided by 100 cannot overflow.\<close>

fun py_div100 :: "json \<Rightarrow> error + rat" where
  "py_div100 (JInt i) = int_truediv i 100"
| "py_div100 (JFloat q) = Inr (fl (q / 100))"
| "py_div100 (JBool b) = int_truediv (if b then 1 else 0) 100"
| "py_div100 _ = Inl TypeError"

text \<open>\<^verbatim>\<open>round(x, 2)\<close> on a float: the value of \<open>x\<close> is rounded to the nearest multiple of
  1/100, ties to even, and the double nearest to that decimal is returned.\<close>

definition py_round2 :: "rat \<Rightarrow> rat" where
  "py_round2 x = fl (of_int (round_half_even (x * 100)) / 100)"

text \<open>\<^verbatim>\<open>str.strip()\<close> removes the characters for which \<^verbatim>\<open>str.isspace\<close> holds.\<close>

definition is_space :: "char \<Rightarrow> bool" where
  "is_space c = (of_char c \<in> {9, 10, 11, 12, 13, 28, 29, 30, 31, 32, 133, 160 :: nat})"

definition strip :: "string \<Rightarrow> string" where
  "strip s = rev (dropWhile is_space (rev (dropWhile is_space s)))"

text \<open>\<^verbatim>\<open>int(x)\<close>. A float is truncated towards zero. A string is read as an optional sign
  and decimal digits, where single underscores may separate digits, between leading and
  trailing whitespace; the whitespace that \<^verbatim>\<open>int\<close> skips is narrower than that of
  \<^verbatim>\<open>str.strip\<close> (the separators 28 to 31 are not skipped). More than 4300 digits, and
  anything else, is a \<^verbatim>\<open>ValueError\<close>.\<close>

definition is_int_space :: "char \<Rightarrow> bool" where
  "is_int_space c = (of_char c \<in> {9, 10, 11, 12, 13, 32, 133, 160 :: nat})"

definition int_strip :: "string \<Rightarrow> string" where
  "int_strip s = rev (dropWhile is_int_space (rev (dropWhile is_int_space s)))"

definition is_digit :: "char \<Rightarrow> bool" where
  "is_digit c = (48 \<le> (of_char c :: nat) \<and> (of_char c :: nat) \<le> 57)"

fun digits_ok :: "string \<Rightarrow> bool" where
  "digits_ok [] = False"
| "digits_ok [c] = is_digit c"
| "digits_ok (c # d # cs) =
     (is_digit c \<and> (if d = CHR ''_'' then digits_ok cs else digits_ok (d # cs)))"

definition max_str_digits :: nat where
  "max_str_digits = 4300"

definition digits_val :: "string \<Rightarrow> error + int" where
  "digits_val s =
     (let ds = filter (\<lambda>c. c \<noteq> CHR ''_'') s
      in if digits_ok s \<and> length ds \<le> max_str_digits
         then Inr (foldl (\<lambda>n c. 10 * n + (int (of_char c) - 48)) 0 ds)
         else Inl ValueError)"

definition int_of_str :: "string \<Rightarrow> error + int" where
  "int_of_str s =
     (case int_strip s of
        [] \<Rightarrow> Inl ValueError
      | c # cs \<Rightarrow>
          if c = CHR ''-'' then then_do (digits_val cs) (\<lambda>n. Inr (- n))
          else if c = CHR ''+'' then digits_val cs
          else digits_val (c # cs))"

fun py_int :: "json \<Rightarrow> error + int" where
  "py_int (JInt i) = Inr i"
| "py_int (JBool b) = Inr (if b then 1 else 0)"
| "py_int (JFloat q) = Inr (if 0 \<le> q then \<lfloor>q\<rfloor> else \<lceil>q\<rceil>)"
| "py_int (JStr s) = int_of_str s"
| "py_int _ = Inl TypeError"

section \<open>Item extraction: \<^verbatim>\<open>parse_item\<close>\<close>

definition cdn_prefix :: string where
  "cdn_prefix = ''https://media-assets.swiggy.com/swiggy/image/upload/''"

text \<open>One variation of a variant group (the body of the inner loop of
  \<^verbatim>\<open>parse_item\<close>). A price that \<^verbatim>\<open>int\<close> rejects becomes 0. The division
  \<^verbatim>\<open>raw_price / 1\<close> that makes the float is after the \<^verbatim>\<open>try\<close>: its
  \<^verbatim>\<open>OverflowError\<close> is not handled here.\<close>

fun variant_record :: "json \<Rightarrow> json \<Rightarrow> error + json" where
  "variant_record group_name (JObj var) =
     (let raw_price = py_or (dget var ''price'' JNull)
                        (py_or (dget var ''defaultPrice'' JNull) (JInt 0));
          raw_price = (case py_int raw_price of Inl e \<Rightarrow> 0 | Inr n \<Rightarrow> n)
      in
      then_do (int_truediv raw_price 1) (\<lambda>price.
        Inr (JObj
          [(''variant_group'', group_name),
           (''variant_name'', dget var ''name'' JNull),
           (''variant_price_add'', JFloat (py_round2 price)),
           (''variant_inStock'', dget var ''inStock'' JNull),
           (''variant_isDefault'', dget var ''default'' (JInt 0)),
           (''variant_isEnabled'', dget var ''isEnabled'' (JBool True))])))"
| "variant_record group_name _ = Inl AttributeError"

text \<open>One variant group: its name, then every variation of it.\<close>

definition variant_group :: "json \<Rightarrow> error + json list" where
  "variant_group vg =
     then_do (dict_get vg ''name'' JNull) (\<lambda>group_name.
     then_do (dict_get vg ''variations'' (JList [])) (\<lambda>variations.
     then_do (py_iter variations) (\<lambda>vars.
       map_res (variant_record group_name) vars)))"

definition parse_variants :: "(string \<times> json) list \<Rightarrow> error + json list" where
  "parse_variants info =
     then_do (dict_get (dget info ''variantsV2'' (JObj [])) ''variantGroups'' (JList [])) (\<lambda>groups.
     then_do (py_iter groups) (\<lambda>vgs.
     then_do (map_res variant_group vgs) (\<lambda>rows. Inr (concat rows))))"

text \<open>\<^verbatim>\<open>parse_item(info, restaurant_name, restaurant_id, category_title, subzone_name)\<close>.
  The first argument \<open>str_of\<close> is Python's \<^verbatim>\<open>str\<close>, which the f-string applies to the
  image identifier. A falsy \<open>info\<close> gives no record; a truthy one that is not a
  dictionary has no \<^verbatim>\<open>get\<close>.\<close>

definition parse_item ::
  "(json \<Rightarrow> string) \<Rightarrow> json \<Rightarrow> json \<Rightarrow> json \<Rightarrow> json \<Rightarrow> json \<Rightarrow> error + json list" where
  "parse_item str_of info restaurant_name restaurant_id category_title subzone_name =
     (if \<not> truthy info then Inr []
      else case info of
        JObj kvs \<Rightarrow>
          (let imageId = dget kvs ''imageId'' JNull;
               imageUrl = (if truthy imageId then JStr (cdn_prefix @ str_of imageId) else JNull)
           in
           then_do (py_div100 (py_or (dget kvs ''price'' JNull)
                      (py_or (dget kvs ''defaultPrice'' JNull) (JInt 0)))) (\<lambda>b.
           let base_price = py_round2 b in
           then_do (if truthy (dget kvs ''finalPrice'' JNull)
                    then then_do (py_div100 (dget kvs ''finalPrice'' (JInt 0)))
                           (\<lambda>f. Inr (JFloat (py_round2 f)))
                    else Inr JNull) (\<lambda>final_price.
           let flashSale = (if truthy final_price \<and>
                               (case final_price of JFloat f \<Rightarrow> f < base_price | _ \<Rightarrow> False)
                            then ''ON'' else ''OFF'');
               dish_instock = dget kvs ''inStock'' (JInt 0)
           in
           then_do (parse_variants kvs) (\<lambda>variants.
             Inr [JObj
               [(''res_id'', restaurant_id),
                (''restaurant'', restaurant_name),
                (''subzone'', py_or subzone_name (JStr '''')),
                (''category'', py_or category_title (dget kvs ''category'' (JStr ''''))),
                (''dish_name'', dget kvs ''name'' (JStr '''')),
                (''description'', py_or (dget kvs ''description'' (JStr '''')) (JStr '''')),
                (''base_price'', JFloat base_price),
                (''final_price'', final_price),
                (''flashSale'', JStr flashSale),
                (''inStock'', JBool (truthy dish_instock)),
                (''image'', imageUrl),
                (''variants'', JList variants)]]))))
      | _ \<Rightarrow> Inl AttributeError)"

section \<open>Loops that fill a list and may raise\<close>

text \<open>
  A \<^verbatim>\<open>for\<close> loop whose body updates the state \<open>s\<close> (the list being filled) and may
  raise. The state reached when the exception is raised is kept: what was appended before
  stays appended. The second component is the exception that ended the loop, if any.
\<close>

fun for_each :: "('a \<Rightarrow> 's \<Rightarrow> 's \<times> error option) \<Rightarrow> 'a list \<Rightarrow> 's \<Rightarrow> 's \<times> error option" where
  "for_each body [] s = (s, None)"
| "for_each body (x # xs) s =
     (case body x s of
        (s', Some e) \<Rightarrow> (s', Some e)
      | (s', None) \<Rightarrow> for_each body xs s')"

text \<open>\<^verbatim>\<open>items.extend(r)\<close> where computing \<open>r\<close> may raise.\<close>

definition py_extend :: "error + 'a list \<Rightarrow> 'a list \<Rightarrow> 'a list \<times> error option" where
  "py_extend r items = (case r of Inl e \<Rightarrow> (items, Some e) | Inr rs \<Rightarrow> (items @ rs, None))"

section \<open>Menu parser: \<^verbatim>\<open>parse_menu_from_data\<close>\<close>

text \<open>The restaurant's name, identifier and subzone: the body of the \<^verbatim>\<open>try\<close> of the
  first loop. \<open>None\<close> when the card does not name a restaurant.\<close>

definition restaurant_probe :: "json \<Rightarrow> error + (json \<times> json \<times> json) option" where
  "restaurant_probe c =
     then_do (dict_get c ''card'' (JObj [])) (\<lambda>a.
     then_do (dict_get a ''card'' (JObj [])) (\<lambda>b.
     then_do (dict_get b ''info'' JNull) (\<lambda>info.
       if \<not> truthy info then Inr None
       else
         then_do (dict_get info ''name'' JNull) (\<lambda>name.
           if \<not> truthy name then Inr None
           else
             then_do (dict_get info ''id'' JNull) (\<lambda>rid.
             then_do (dict_get info ''areaName'' JNull) (\<lambda>area.
             then_do (dict_get info ''subzoneName'' JNull) (\<lambda>sub.
               Inr (Some (name, rid, py_or area (py_or sub (JStr '''')))))))))))"

text \<open>The first loop: an exception skips the card, the first match ends the loop.\<close>

fun restaurant_scan :: "json list \<Rightarrow> json \<times> json \<times> json" where
  "restaurant_scan [] = (JNull, JNull, JNull)"
| "restaurant_scan (c # cs) =
     (case restaurant_probe c of
        Inl e \<Rightarrow> restaurant_scan cs
      | Inr None \<Rightarrow> restaurant_scan cs
      | Inr (Some r) \<Rightarrow> r)"

definition grouped_probe :: "json \<Rightarrow> error + json" where
  "grouped_probe c =
     then_do (dict_get c ''groupedCard'' (JObj [])) (\<lambda>g.
     then_do (dict_get g ''cardGroupMap'' (JObj [])) (\<lambda>m.
     then_do (dict_get m ''REGULAR'' (JObj [])) (\<lambda>r.
       dict_get r ''cards'' (JList []))))"

text \<open>The second loop: the first truthy card group.\<close>

fun grouped_scan :: "json list \<Rightarrow> json" where
  "grouped_scan [] = JList []"
| "grouped_scan (c # cs) =
     (case grouped_probe c of
        Inl e \<Rightarrow> grouped_scan cs
      | Inr grouped \<Rightarrow> if truthy grouped then grouped else grouped_scan cs)"

text \<open>The item node of an item card inside a category.\<close>

definition category_item_info :: "json \<Rightarrow> error + json" where
  "category_item_info itemCard =
     then_do (dict_get itemCard ''card'' (JObj [])) (\<lambda>a. dict_get a ''info'' (JObj []))"

text \<open>The item node of an item card of a card without categories: the second place is
  looked at only when the first holds nothing truthy.\<close>

definition flat_item_info :: "json \<Rightarrow> error + json" where
  "flat_item_info itemCard =
     then_do (dict_get itemCard ''card'' (JObj [])) (\<lambda>a.
     then_do (dict_get a ''info'' JNull) (\<lambda>i1.
       if truthy i1 then Inr i1
       else
         then_do (dict_get a ''card'' (JObj [])) (\<lambda>b.
         then_do (dict_get b ''info'' JNull) (\<lambda>i2. Inr (py_or i2 (JObj []))))))"

text \<open>The body of \<^verbatim>\<open>for cat in categories\<close>.\<close>

definition category_body ::
  "(json \<Rightarrow> string) \<Rightarrow> json \<times> json \<times> json \<Rightarrow> json \<Rightarrow> json list \<Rightarrow> json list \<times> error option" where
  "category_body str_of ctx cat items =
     (case ctx of (restaurant_name, restaurant_id, subzone_name) \<Rightarrow>
      (case then_do (dict_get cat ''title'' JNull) (\<lambda>t.
           then_do (dict_get cat ''itemCards'' (JList [])) (\<lambda>item_cards.
           then_do (py_iter item_cards) (\<lambda>ics. Inr (py_or t (JStr ''''), ics)))) of
        Inl e \<Rightarrow> (items, Some e)
      | Inr (cat_title, ics) \<Rightarrow>
          for_each (\<lambda>itemCard items.
              py_extend (then_do (category_item_info itemCard) (\<lambda>info.
                        parse_item str_of info restaurant_name restaurant_id cat_title subzone_name))
                items)
            ics items))"

text \<open>The body of \<^verbatim>\<open>for card in grouped_cards\<close>.\<close>

definition card_body ::
  "(json \<Rightarrow> string) \<Rightarrow> json \<times> json \<times> json \<Rightarrow> json \<Rightarrow> json list \<Rightarrow> json list \<times> error option" where
  "card_body str_of ctx card' items =
     (case ctx of (restaurant_name, restaurant_id, subzone_name) \<Rightarrow>
      (case then_do (dict_get card' ''card'' (JObj [])) (\<lambda>a.
           then_do (dict_get a ''card'' (JObj [])) (\<lambda>card_obj.
           then_do (dict_get card_obj ''categories'' JNull) (\<lambda>categories.
             Inr (card_obj, categories)))) of
        Inl e \<Rightarrow> (items, Some e)
      | Inr (card_obj, categories) \<Rightarrow>
          if truthy categories then
            (case py_iter categories of
               Inl e \<Rightarrow> (items, Some e)
             | Inr cats \<Rightarrow> for_each (category_body str_of ctx) cats items)
          else
            (case then_do (dict_get card_obj ''itemCards'' (JList [])) py_iter of
               Inl e \<Rightarrow> (items, Some e)
             | Inr ics \<Rightarrow>
                 for_each (\<lambda>itemCard items.
                     py_extend (then_do (flat_item_info itemCard) (\<lambda>info.
                             then_do (dict_get card_obj ''title'' (JStr '''')) (\<lambda>t.
                               parse_item str_of info restaurant_name restaurant_id
                                 (py_or t (JStr '''')) subzone_name)))
                       items)
                   ics items)))"

text \<open>The body of the outer \<^verbatim>\<open>try\<close>: the items filled in, and the exception that ended
  it, if any.\<close>

definition parse_menu_body :: "(json \<Rightarrow> string) \<Rightarrow> json \<Rightarrow> json list \<times> error option" where
  "parse_menu_body str_of data =
     (case then_do (dict_get data ''data'' (JObj [])) (\<lambda>d.
           then_do (dict_get d ''cards'' (JList [])) py_iter) of
        Inl e \<Rightarrow> ([], Some e)
      | Inr cards \<Rightarrow>
          (let ctx = restaurant_scan cards;
               grouped_cards = grouped_scan cards
           in case py_iter grouped_cards of
                Inl e \<Rightarrow> ([], Some e)
              | Inr gcs \<Rightarrow> for_each (card_body str_of ctx) gcs []))"

text \<open>\<^verbatim>\<open>except Exception: pass\<close>, then \<^verbatim>\<open>return items\<close>.\<close>

definition parse_menu_from_data :: "(json \<Rightarrow> string) \<Rightarrow> json \<Rightarrow> error + json list" where
  "parse_menu_from_data str_of data =
     (case parse_menu_body str_of data of (items, exn) \<Rightarrow> Inr items)"

section \<open>Offer parser: \<^verbatim>\<open>extract_offers_from_data\<close>\<close>

text \<open>\<^verbatim>\<open>k in x\<close> for a string \<open>k\<close>: a key of a dictionary, an element of a list, a
  substring of a string; other values have no membership test.\<close>

fun starts_with :: "string \<Rightarrow> string \<Rightarrow> bool" where
  "starts_with [] s = True"
| "starts_with (k # ks) [] = False"
| "starts_with (k # ks) (c # cs) = (k = c \<and> starts_with ks cs)"

fun contains_str :: "string \<Rightarrow> string \<Rightarrow> bool" where
  "contains_str k [] = (k = [])"
| "contains_str k (c # cs) = (starts_with k (c # cs) \<or> contains_str k cs)"

fun py_in :: "string \<Rightarrow> json \<Rightarrow> error + bool" where
  "py_in k (JObj kvs) = Inr (map_of kvs k \<noteq> None)"
| "py_in k (JList xs) = Inr (List.member xs (JStr k))"
| "py_in k (JStr s) = Inr (contains_str k s)"
| "py_in k _ = Inl TypeError"

text \<open>\<^verbatim>\<open>x[k]\<close> for a string \<open>k\<close>: only a dictionary is indexed by a string.\<close>

fun py_subscript :: "json \<Rightarrow> string \<Rightarrow> error + json" where
  "py_subscript (JObj kvs) k = (case map_of kvs k of None \<Rightarrow> Inl KeyError | Some v \<Rightarrow> Inr v)"
| "py_subscript _ k = Inl TypeError"

definition offers_restaurant_probe :: "json \<Rightarrow> error + (json \<times> json) option" where
  "offers_restaurant_probe c =
     then_do (dict_get c ''card'' (JObj [])) (\<lambda>a.
     then_do (dict_get a ''card'' (JObj [])) (\<lambda>b.
     then_do (dict_get b ''info'' JNull) (\<lambda>info.
       if \<not> truthy info then Inr None
       else
         then_do (dict_get info ''name'' JNull) (\<lambda>name.
           if \<not> truthy name then Inr None
           else
             then_do (dict_get info ''areaName'' JNull) (\<lambda>area.
             then_do (dict_get info ''subzoneName'' JNull) (\<lambda>sub.
               Inr (Some (name, py_or area (py_or sub (JStr ''''))))))))))"

fun offers_restaurant_scan :: "json list \<Rightarrow> json \<times> json" where
  "offers_restaurant_scan [] = (JNull, JNull)"
| "offers_restaurant_scan (c # cs) =
     (case offers_restaurant_probe c of
        Inl e \<Rightarrow> offers_restaurant_scan cs
      | Inr None \<Rightarrow> offers_restaurant_scan cs
      | Inr (Some r) \<Rightarrow> r)"

text \<open>The offers of one card nested in a sub-card list.\<close>

definition nested_offers :: "json \<Rightarrow> error + json list" where
  "nested_offers nested =
     then_do (dict_get nested ''card'' (JObj [])) (\<lambda>a.
     then_do (dict_get a ''card'' (JObj [])) (\<lambda>nested_card.
     then_do (py_in ''offers'' nested_card) (\<lambda>has.
       if has then then_do (dict_get nested_card ''offers'' (JList [])) py_iter
       else Inr [])))"

text \<open>\<^verbatim>\<open>offers_candidates\<close> of one card: the three shapes, all probed, in this order.\<close>

definition offers_candidates :: "json \<Rightarrow> error + json list" where
  "offers_candidates card_data =
     then_do (py_in ''gridElements'' card_data) (\<lambda>has_grid.
     then_do (if has_grid
              then then_do (py_subscript card_data ''gridElements'') (\<lambda>g.
                   then_do (dict_get g ''infoWithStyle'' (JObj [])) (\<lambda>i.
                   then_do (dict_get i ''offers'' (JList [])) py_iter))
              else Inr []) (\<lambda>c1.
     then_do (py_in ''offers'' card_data) (\<lambda>has_offers.
     then_do (if has_offers
              then then_do (dict_get card_data ''offers'' (JList [])) py_iter
              else Inr []) (\<lambda>c2.
     then_do (py_in ''cards'' card_data) (\<lambda>has_cards.
     then_do (if has_cards
              then then_do (py_subscript card_data ''cards'') (\<lambda>ns.
                   then_do (py_iter ns) (\<lambda>nested.
                   then_do (map_res nested_offers nested) (\<lambda>xs. Inr (concat xs))))
              else Inr []) (\<lambda>c3.
       Inr (c1 @ c2 @ c3)))))))"

definition no_logo :: string where
  "no_logo = ''https://via.placeholder.com/120?text=No+Logo''"

text \<open>The record appended for one raw offer.\<close>

definition offer_record :: "json \<times> json \<Rightarrow> json \<Rightarrow> error + json" where
  "offer_record ctx o' =
     (case ctx of (restaurant_name, subzone_name) \<Rightarrow>
      then_do (dict_get o' ''info'' (JObj [])) (\<lambda>info.
      then_do (dict_get info ''header'' JNull) (\<lambda>header.
      then_do (dict_get info ''couponCode'' JNull) (\<lambda>code.
      then_do (dict_get info ''description'' JNull) (\<lambda>description.
      then_do (dict_get info ''discountType'' JNull) (\<lambda>discount.
      then_do (dict_get info ''offerLogo'' JNull) (\<lambda>logo.
        Inr (JObj
          [(''res_id'', restaurant_name),
           (''restaurant'', py_or restaurant_name (JStr '''')),
           (''subzone'', py_or subzone_name (JStr '''')),
           (''title'', py_or header (JStr ''Offer'')),
           (''code'', py_or code (JStr '''')),
           (''description'', py_or description (JStr '''')),
           (''discount'', py_or discount (JStr '''')),
           (''image'', py_or logo (JStr no_logo))]))))))))"

text \<open>The body of \<^verbatim>\<open>for card in cards\<close>: its \<^verbatim>\<open>try\<close> catches every exception, and
  the offers appended before the exception stay in the list.\<close>

definition offers_card_body :: "json \<times> json \<Rightarrow> json \<Rightarrow> json list \<Rightarrow> json list \<times> error option" where
  "offers_card_body ctx card' offers_list =
     (case then_do (dict_get card' ''card'' (JObj [])) (\<lambda>a.
           then_do (dict_get a ''card'' (JObj [])) offers_candidates) of
        Inl e \<Rightarrow> (offers_list, None)
      | Inr cands \<Rightarrow>
          (fst (for_each (\<lambda>o' offers_list.
                  py_extend (then_do (offer_record ctx o') (\<lambda>r. Inr [r])) offers_list)
                cands offers_list), None))"

definition extract_offers_body :: "json \<Rightarrow> json list \<times> error option" where
  "extract_offers_body data =
     (case then_do (dict_get data ''data'' (JObj [])) (\<lambda>d.
           then_do (dict_get d ''cards'' (JList [])) py_iter) of
        Inl e \<Rightarrow> ([], Some e)
      | Inr cards \<Rightarrow>
          for_each (offers_card_body (offers_restaurant_scan cards)) cards [])"

definition extract_offers_from_data :: "json \<Rightarrow> error + json list" where
  "extract_offers_from_data data =
     (case extract_offers_body data of (offers_list, exn) \<Rightarrow> Inr offers_list)"

section \<open>Variant flattener: \<^verbatim>\<open>flatten_items_with_variants\<close>\<close>

text \<open>
  The flattener mutates the dictionaries it is given (\<^verbatim>\<open>item.pop\<close>) and creates new ones
  (\<^verbatim>\<open>item.copy()\<close>), so dictionaries live in a store: an address is an index into the
  list of all dictionary objects, a new object is appended at the end, and the lists
  \<^verbatim>\<open>items\<close> and \<^verbatim>\<open>flat_rows\<close> hold addresses. A reference held by the program is
  always valid (\<open>a < length h\<close>). The values inside a dictionary are not mutated by the
  flattener and stay plain values.
\<close>

type_synonym dict = "(string \<times> json) list"
type_synonym heap = "dict list"

text \<open>Removing a key, and \<^verbatim>\<open>d[k] = v\<close>: an existing key keeps its place, a new one is
  added last.\<close>

definition dict_del :: "string \<Rightarrow> dict \<Rightarrow> dict" where
  "dict_del k d = filter (\<lambda>kv. fst kv \<noteq> k) d"

fun dict_set :: "string \<Rightarrow> json \<Rightarrow> dict \<Rightarrow> dict" where
  "dict_set k v [] = [(k, v)]"
| "dict_set k v (kv # d) = (if fst kv = k then (k, v) # d else kv # dict_set k v d)"

text \<open>\<^verbatim>\<open>row.update({...})\<close>: the pairs are written in order.\<close>

definition dict_update :: "dict \<Rightarrow> dict \<Rightarrow> dict" where
  "dict_update row kvs = foldl (\<lambda>r kv. dict_set (fst kv) (snd kv) r) row kvs"

text \<open>The five variant fields of a row made for the variant \<open>var\<close>.\<close>

definition variant_fields :: "dict \<Rightarrow> dict" where
  "variant_fields var =
     [(''variant_group'', dget var ''variant_group'' JNull),
      (''variant_name'', dget var ''variant_name'' JNull),
      (''variant_price_add'', dget var ''variant_price_add'' JNull),
      (''variant_inStock'', dget var ''variant_inStock'' JNull),
      (''variant_isDefault'', dget var ''variant_isDefault'' JNull)]"

definition empty_variant_fields :: dict where
  "empty_variant_fields =
     [(''variant_group'', JNull),
      (''variant_name'', JNull),
      (''variant_price_add'', JNull),
      (''variant_inStock'', JNull),
      (''variant_isDefault'', JNull)]"

text \<open>The body of \<^verbatim>\<open>for var in variants\<close> for the item at address \<open>a\<close>: the copy is a
  new object; a variant that is not a dictionary has no \<^verbatim>\<open>get\<close>, and then the copy is
  left behind unreferenced.\<close>

fun variant_row :: "nat \<Rightarrow> json \<Rightarrow> heap \<times> nat list \<Rightarrow> (heap \<times> nat list) \<times> error option" where
  "variant_row a (JObj var) (h, flat_rows) =
     ((h @ [dict_update (h ! a) (variant_fields var)], flat_rows @ [length h]), None)"
| "variant_row a _ (h, flat_rows) = ((h @ [h ! a], flat_rows), Some AttributeError)"

text \<open>The body of \<^verbatim>\<open>for item in items\<close>.\<close>

fun flatten_item :: "nat \<Rightarrow> heap \<times> nat list \<Rightarrow> (heap \<times> nat list) \<times> error option" where
  "flatten_item a (h, flat_rows) =
     (let variants = dget (h ! a) ''variants'' (JList []);
          h = h[a := dict_del ''variants'' (h ! a)]
      in if truthy variants then
           (case py_iter variants of
              Inl e \<Rightarrow> ((h, flat_rows), Some e)
            | Inr vars \<Rightarrow> for_each (variant_row a) vars (h, flat_rows))
         else
           ((h @ [dict_update (h ! a) empty_variant_fields], flat_rows @ [length h]), None))"

text \<open>\<^verbatim>\<open>flatten_items_with_variants(items)\<close>: the store after the call and the returned
  list of row addresses, or the exception raised.\<close>

definition flatten_items_with_variants :: "heap \<Rightarrow> nat list \<Rightarrow> heap \<times> (error + nat list)" where
  "flatten_items_with_variants h items =
     (case for_each flatten_item items (h, []) of
        ((h', flat_rows), None) \<Rightarrow> (h', Inr flat_rows)
      | ((h', flat_rows), Some e) \<Rightarrow> (h', Inl e))"

text \<open>The variant list a dish record carries, and the records the flattener is meant
  for: the variant list is a list of dictionaries (none when the key is missing).\<close>

definition variants_of :: "dict \<Rightarrow> json list" where
  "variants_of d = (case dget d ''variants'' (JList []) of JList vs \<Rightarrow> vs | _ \<Rightarrow> [])"

fun is_dict :: "json \<Rightarrow> bool" where
  "is_dict (JObj kvs) = True"
| "is_dict _ = False"

definition dish_record :: "dict \<Rightarrow> bool" where
  "dish_record d =
     (case dget d ''variants'' (JList []) of JList vs \<Rightarrow> list_all is_dict vs | _ \<Rightarrow> False)"

section \<open>Offer reconciler: \<^verbatim>\<open>compare_offers\<close>\<close>

text \<open>
  The part of the endpoint after the reference file is read and the offers are scraped.
  A row of the scraped frame has the eight columns of an offer record; of the reference
  frame only the columns \<^verbatim>\<open>title\<close> and \<^verbatim>\<open>code\<close> are read, so a reference row is that
  pair. \<open>str_of\<close> is the conversion \<^verbatim>\<open>astype(str)\<close> applies to a cell.
\<close>

record offer =
  res_id :: json
  restaurant :: json
  subzone :: json
  title :: json
  code :: json
  description :: json
  discount :: json
  image :: json

datatype response = ErrorResponse string nat | MismatchResponse "offer list"

text \<open>\<^verbatim>\<open>.astype(str).str.strip()\<close> on one cell.\<close>

definition normalize_cell :: "(json \<Rightarrow> string) \<Rightarrow> json \<Rightarrow> json" where
  "normalize_cell str_of v = JStr (strip (str_of v))"

definition compare_offers ::
  "(json \<Rightarrow> string) \<Rightarrow> (json \<times> json) list \<Rightarrow> offer list \<Rightarrow> response" where
  "compare_offers str_of df_ref scraped_offers =
     (let df_ref = map (\<lambda>r. (normalize_cell str_of (fst r), normalize_cell str_of (snd r))) df_ref
      in if scraped_offers = [] then ErrorResponse ''No offers scraped'' 404
         else
           (let df_scraped =
                  map (\<lambda>row. row\<lparr>title := normalize_cell str_of (title row),
                                  code := normalize_cell str_of (code row)\<rparr>) scraped_offers;
                match = map (\<lambda>row. list_ex (\<lambda>r. fst r = title row \<and> snd r = code row) df_ref)
                          df_scraped;
                mismatches = map fst (filter (\<lambda>rm. \<not> snd rm) (zip df_scraped match))
            in MismatchResponse mismatches))"

text \<open>The mismatches as the specification words them: the scraped offers, normalised,
  for which no normalised reference offer has an equal (title, code) pair, in scraped
  order.\<close>

definition mismatches_spec ::
  "(json \<Rightarrow> string) \<Rightarrow> (json \<times> json) list \<Rightarrow> offer list \<Rightarrow> offer list" where
  "mismatches_spec str_of reference scraped =
     map (\<lambda>s. s\<lparr>title := normalize_cell str_of (title s),
                  code := normalize_cell str_of (code s)\<rparr>)
       (filter (\<lambda>s. \<not> (\<exists>r \<in> set reference.
                        normalize_cell str_of (fst r) = normalize_cell str_of (title s) \<and>
                        normalize_cell str_of (snd r) = normalize_cell str_of (code s)))
          scraped)"

section \<open>Properties of records, and a sample document\<close>

text \<open>A value is a record (a dictionary) with the property \<open>P\<close>.\<close>

fun is_record_with :: "(dict \<Rightarrow> bool) \<Rightarrow> json \<Rightarrow> bool" where
  "is_record_with P (JObj d) = P d"
| "is_record_with P _ = False"

text \<open>The flash-sale invariant as the specification states it: the flag is ON exactly
  when the final price is not \<^verbatim>\<open>None\<close> and below the base price.\<close>

definition flash_sale_claimed :: "dict \<Rightarrow> bool" where
  "flash_sale_claimed d =
     (case dget d ''base_price'' JNull of
        JFloat b \<Rightarrow>
          (dget d ''flashSale'' JNull = JStr ''ON'') =
            (dget d ''final_price'' JNull \<noteq> JNull \<and>
             (case dget d ''final_price'' JNull of JFloat f \<Rightarrow> f < b | _ \<Rightarrow> False))
      | _ \<Rightarrow> False)"

text \<open>The invariant the code keeps: the final price must also be non-zero.\<close>

definition flash_sale_amended :: "dict \<Rightarrow> bool" where
  "flash_sale_amended d =
     (case dget d ''base_price'' JNull of
        JFloat b \<Rightarrow>
          (dget d ''flashSale'' JNull = JStr ''ON'') =
            (case dget d ''final_price'' JNull of JFloat f \<Rightarrow> f \<noteq> 0 \<and> f < b | _ \<Rightarrow> False)
      | _ \<Rightarrow> False)"

text \<open>The cards both parsers iterate over, and the documents none of whose cards is a
  mapping: the document or its \<^verbatim>\<open>data\<close> member is not a mapping, the \<^verbatim>\<open>cards\<close> member
  is not iterable, or it has no element that is a mapping. The empty documents
  \<^verbatim>\<open>{}\<close> and \<^verbatim>\<open>{"data": {}}\<close> are among them.\<close>

definition cards_of :: "json \<Rightarrow> error + json list" where
  "cards_of data =
     then_do (dict_get data ''data'' (JObj [])) (\<lambda>d.
     then_do (dict_get d ''cards'' (JList [])) py_iter)"

definition no_card_is_mapping :: "json \<Rightarrow> bool" where
  "no_card_is_mapping data =
     (case cards_of data of
        Inl e \<Rightarrow> True
      | Inr cards \<Rightarrow> list_all (\<lambda>c. \<not> is_dict c) cards)"

text \<open>A card holds no menu group when the lookup of its regular card group fails or
  finds nothing truthy. A document has no menu group when it has no cards or no card of it
  holds one.\<close>

definition no_group :: "json \<Rightarrow> bool" where
  "no_group c = (case grouped_probe c of Inl e \<Rightarrow> True | Inr grouped \<Rightarrow> \<not> truthy grouped)"

definition no_menu_group :: "json \<Rightarrow> bool" where
  "no_menu_group data =
     (case cards_of data of
        Inl e \<Rightarrow> True
      | Inr cards \<Rightarrow> list_all no_group cards)"

text \<open>The raw offers of a card, in any of the three shapes. A card holds no offer when
  collecting them fails or finds none. A document has no offer list when it has no cards
  or no card of it holds an offer.\<close>

definition card_offers :: "json \<Rightarrow> error + json list" where
  "card_offers card' =
     then_do (dict_get card' ''card'' (JObj [])) (\<lambda>a.
     then_do (dict_get a ''card'' (JObj [])) offers_candidates)"

definition no_offers :: "json \<Rightarrow> bool" where
  "no_offers c = (case card_offers c of Inl e \<Rightarrow> True | Inr cands \<Rightarrow> cands = [])"

definition no_offer_list :: "json \<Rightarrow> bool" where
  "no_offer_list data =
     (case cards_of data of
        Inl e \<Rightarrow> True
      | Inr cards \<Rightarrow> list_all no_offers cards)"

text \<open>A document whose only card has a direct offer list.\<close>

definition offers_document :: "json list \<Rightarrow> json" where
  "offers_document offers =
     JObj [(''data'', JObj [(''cards'', JList
       [JObj [(''card'', JObj [(''card'', JObj [(''offers'', JList offers)])])]])])]"

definition half_off :: json where
  "half_off = JObj [(''info'', JObj [(''header'', JStr ''50% OFF''),
                                      (''couponCode'', JStr ''HALF'')])]"

text \<open>A document with one restaurant and one menu card without categories, titled
  \<open>title'\<close>, that holds the given item cards; \<open>item_card\<close> is the item card of an item
  node.\<close>

definition item_card :: "json \<Rightarrow> json" where
  "item_card info = JObj [(''card'', JObj [(''info'', info)])]"

definition menu_document :: "string \<Rightarrow> json list \<Rightarrow> json" where
  "menu_document title' item_cards =
     JObj [(''data'', JObj [(''cards'', JList
       [JObj [(''card'', JObj [(''card'', JObj [(''info'',
          JObj [(''name'', JStr ''Test Diner''), (''id'', JStr ''42''),
                (''areaName'', JStr ''Andheri'')])])])],
        JObj [(''groupedCard'', JObj [(''cardGroupMap'', JObj [(''REGULAR'', JObj [(''cards'',
          JList [JObj [(''card'', JObj [(''card'',
            JObj [(''title'', JStr title'),
                  (''itemCards'', JList item_cards)])])]])])])])]])])]"

definition burger :: json where
  "burger = JObj [(''name'', JStr ''Burger''), (''price'', JInt 15000),
                  (''finalPrice'', JInt 12000), (''inStock'', JInt 1)]"

text \<open>The rows the specification asks of the flattener for one dish record: one row
  per variant, or one row with the five variant fields set to \<^verbatim>\<open>None\<close>; every row is the
  record without its variant list.\<close>

definition fields_of :: "json \<Rightarrow> dict" where
  "fields_of v = (case v of JObj var \<Rightarrow> variant_fields var | _ \<Rightarrow> [])"

definition rows_of :: "dict \<Rightarrow> dict list" where
  "rows_of d =
     (let item = dict_del ''variants'' d
      in if variants_of d = [] then [dict_update item empty_variant_fields]
         else map (\<lambda>v. dict_update item (fields_of v)) (variants_of d))"

text \<open>The store after the variant lists of the given records are removed, and the rows
  made for a list of addresses, one address after the other: an address that comes a
  second time finds its record without variants.\<close>

definition pop_variants :: "nat \<Rightarrow> heap \<Rightarrow> heap" where
  "pop_variants a h = h[a := dict_del ''variants'' (h ! a)]"

definition pop_all :: "nat list \<Rightarrow> heap \<Rightarrow> heap" where
  "pop_all items h = foldl (\<lambda>h a. pop_variants a h) h items"

fun rows_from :: "heap \<Rightarrow> nat list \<Rightarrow> dict list" where
  "rows_from h [] = []"
| "rows_from h (a # as) = rows_of (h ! a) @ rows_from (pop_variants a h) as"

definition variant_fields_absent :: "dict \<Rightarrow> bool" where
  "variant_fields_absent row =
     (map_of row ''variant_group'' = Some JNull \<and>
      map_of row ''variant_name'' = Some JNull \<and>
      map_of row ''variant_price_add'' = Some JNull \<and>
      map_of row ''variant_inStock'' = Some JNull \<and>
      map_of row ''variant_isDefault'' = Some JNull)"

text \<open>Two dish records for examples: one with two variants, one with none.\<close>

definition pizza :: dict where
  "pizza =
     [(''dish_name'', JStr ''Pizza''), (''base_price'', JFloat 250),
      (''variants'', JList
         [JObj [(''variant_group'', JStr ''Size''), (''variant_name'', JStr ''Small''),
                (''variant_price_add'', JFloat 0), (''variant_inStock'', JInt 1),
                (''variant_isDefault'', JInt 1), (''variant_isEnabled'', JBool True)],
          JObj [(''variant_group'', JStr ''Size''), (''variant_name'', JStr ''Large''),
                (''variant_price_add'', JFloat 120), (''variant_inStock'', JInt 1),
                (''variant_isDefault'', JInt 0), (''variant_isEnabled'', JBool True)]])]"

definition soup :: dict where
  "soup = [(''dish_name'', JStr ''Soup''), (''base_price'', JFloat 90), (''variants'', JList [])]"

text \<open>Offers for examples, and a conversion to text that is the identity on strings.\<close>

definition text_of :: "json \<Rightarrow> string" where
  "text_of v = (case v of JStr s \<Rightarrow> s | _ \<Rightarrow> [])"

definition sample_offer :: "string \<Rightarrow> string \<Rightarrow> offer" where
  "sample_offer t c = \<lparr>res_id = JStr ''Test Diner'', restaurant = JStr ''Test Diner'',
     subzone = JStr ''Andheri'', title = JStr t, code = JStr c, description = JStr '''',
     discount = JStr '''', image = JStr no_logo\<rparr>"

section \<open>Rounding of prices\<close>

text \<open>
  Rounding to the nearest integer is within one half, and is determined by that; the
  exponent brackets its argument; \<open>fl\<close> leaves the integers below \<open>2\<^sup>5\<^sup>3\<close> alone and has a
  relative error of at most \<open>2\<^sup>-\<^sup>5\<^sup>3\<close> on normal numbers. Hence a whole number of minor
  units below \<open>2\<^sup>5\<^sup>2\<close> divided by 100 is a double that \<^verbatim>\<open>round(x, 2)\<close> leaves as it is.
\<close>

lemma rhe_error: "\<bar>of_int (round_half_even x) - x\<bar> \<le> 1 / 2"
proof -
  have "of_int \<lfloor>x\<rfloor> \<le> x" and "x < of_int \<lfloor>x\<rfloor> + 1" by linarith+
  then show ?thesis
    by (auto simp: round_half_even_def Let_def abs_le_iff)
qed

lemma rhe_unique:
  assumes "\<bar>x - of_int k\<bar> < 1 / 2"
  shows "round_half_even x = k"
proof (cases "of_int k \<le> x")
  case True
  with assms have "\<lfloor>x\<rfloor> = k" by (intro floor_unique) (auto simp: abs_less_iff)
  with assms True show ?thesis
    by (auto simp: round_half_even_def Let_def abs_less_iff)
next
  case False
  with assms have "\<lfloor>x\<rfloor> = k - 1" by (intro floor_unique) (auto simp: abs_less_iff)
  with assms False show ?thesis
    by (auto simp: round_half_even_def Let_def abs_less_iff)
qed

lemma rhe_of_int: "round_half_even (of_int k) = k"
  by (rule rhe_unique) simp

lemma exponent_bounds:
  assumes "q \<noteq> 0"
  shows "power_int 2 (exponent q) \<le> \<bar>q\<bar>" and "\<bar>q\<bar> < power_int 2 (exponent q + 1)"
proof -
  obtain a b where ab: "quotient_of \<bar>q\<bar> = (a, b)" by (cases "quotient_of \<bar>q\<bar>")
  then have b: "0 < b" and q: "\<bar>q\<bar> = of_int a / of_int b"
    by (simp_all add: quotient_of_denom_pos quotient_of_div)
  from assms have "0 < \<bar>q\<bar>" by simp
  with q b have a: "0 < a" by (simp add: zero_less_divide_iff)
  define la lb where "la = floorlog 2 (nat a)" and "lb = floorlog 2 (nat b)"
  define A B L M :: rat where "A = of_int a" and "B = of_int b" and "L = 2 ^ la" and "M = 2 ^ lb"
  define e where "e = int la - int lb"
  from floorlog_bounds [of "nat a" 2] a
  have a1: "2 ^ (la - 1) \<le> nat a" and a2: "nat a < 2 ^ la" by (simp_all add: la_def)
  from floorlog_bounds [of "nat b" 2] b
  have b1: "2 ^ (lb - 1) \<le> nat b" and b2: "nat b < 2 ^ lb" by (simp_all add: lb_def)
  have la: "0 < la" and lb: "0 < lb"
    using a b by (simp_all add: la_def lb_def floorlog_def)
  from la have "(2::nat) ^ la = 2 * 2 ^ (la - 1)" by (cases la) simp_all
  with a1 have "(2::nat) ^ la \<le> 2 * nat a" by simp
  then have "int (2 ^ la) \<le> int (2 * nat a)" by (rule iffD2 [OF of_nat_le_iff])
  with a have "(2::int) ^ la \<le> 2 * a" by simp
  then have "(of_int ((2::int) ^ la) :: rat) \<le> of_int (2 * a)" by (rule iffD2 [OF of_int_le_iff])
  then have LA: "L \<le> 2 * A" by (simp add: L_def A_def)
  from lb have "(2::nat) ^ lb = 2 * 2 ^ (lb - 1)" by (cases lb) simp_all
  with b1 have "(2::nat) ^ lb \<le> 2 * nat b" by simp
  then have "int (2 ^ lb) \<le> int (2 * nat b)" by (rule iffD2 [OF of_nat_le_iff])
  with b have "(2::int) ^ lb \<le> 2 * b" by simp
  then have "(of_int ((2::int) ^ lb) :: rat) \<le> of_int (2 * b)" by (rule iffD2 [OF of_int_le_iff])
  then have MB: "M \<le> 2 * B" by (simp add: M_def B_def)
  from a2 have "int (nat a) < int (2 ^ la)" by (rule iffD2 [OF of_nat_less_iff])
  with a have "a < 2 ^ la" by simp
  then have "(of_int a :: rat) < of_int (2 ^ la)" by (rule iffD2 [OF of_int_less_iff])
  then have AL: "A < L" by (simp add: L_def A_def)
  from b2 have "int (nat b) < int (2 ^ lb)" by (rule iffD2 [OF of_nat_less_iff])
  with b have "b < 2 ^ lb" by simp
  then have "(of_int b :: rat) < of_int (2 ^ lb)" by (rule iffD2 [OF of_int_less_iff])
  then have BM: "B < M" by (simp add: M_def B_def)
  have pos: "0 < A" "0 < B" "0 < L" "0 < M"
    using a b by (simp_all add: A_def B_def L_def M_def)
  have pe: "power_int 2 e = L / M"
    by (simp add: e_def L_def M_def power_int_diff)
  have pe1: "power_int 2 (e + 1) = 2 * L / M"
    by (simp add: power_int_add_1 pe)
  have pe2: "power_int 2 (e - 1) = L / (2 * M)"
    using power_int_minus_mult [of "2::rat" e] by (simp add: pe field_simps)
  have "A * M < L * M" using AL pos by simp
  also have "L * M \<le> L * (2 * B)" using MB pos by simp
  finally have "A / B < 2 * L / M"
    using pos by (simp add: field_simps)
  then have upper: "\<bar>q\<bar> < power_int 2 (e + 1)"
    by (simp only: q pe1 A_def B_def)
  have "L * B \<le> 2 * A * B" using LA pos by simp
  also have "2 * A * B \<le> 2 * A * M" using BM pos by simp
  finally have "L / (2 * M) \<le> A / B"
    using pos by (simp add: field_simps)
  then have lower: "power_int 2 (e - 1) \<le> \<bar>q\<bar>"
    by (simp only: q pe2 A_def B_def)
  have ex: "exponent q = (if power_int 2 e \<le> \<bar>q\<bar> then e else e - 1)"
    by (simp add: exponent_def Let_def ab e_def la_def lb_def)
  show "power_int 2 (exponent q) \<le> \<bar>q\<bar>"
    using lower by (simp add: ex)
  show "\<bar>q\<bar> < power_int 2 (exponent q + 1)"
    using upper by (auto simp: ex not_le)
qed

lemma exponent_less:
  assumes "q \<noteq> 0" and "\<bar>q\<bar> < power_int 2 n"
  shows "exponent q < n"
proof (rule ccontr)
  assume "\<not> exponent q < n"
  then have "power_int (2::rat) n \<le> power_int 2 (exponent q)"
    by (intro power_int_increasing) simp_all
  with exponent_bounds(1) [OF assms(1)] assms(2) show False by simp
qed

lemma exponent_ge:
  assumes "q \<noteq> 0" and "power_int 2 n \<le> \<bar>q\<bar>"
  shows "n \<le> exponent q"
proof (rule ccontr)
  assume "\<not> n \<le> exponent q"
  then have "power_int (2::rat) (exponent q + 1) \<le> power_int 2 n"
    by (intro power_int_increasing) simp_all
  with exponent_bounds(2) [OF assms(1)] assms(2) show False by simp
qed

lemma fl_zero: "fl 0 = 0"
  by (simp add: fl_def)

lemma fl_of_int:
  assumes "\<bar>n\<bar> < 2 ^ 53"
  shows "fl (of_int n) = of_int n"
proof (cases "n = 0")
  case True
  then show ?thesis by (simp add: fl_def)
next
  case False
  let ?q = "of_int n :: rat"
  from False have q: "?q \<noteq> 0" by simp
  from assms have "(of_int \<bar>n\<bar> :: rat) < of_int (2 ^ 53)" by (rule iffD2 [OF of_int_less_iff])
  then have "\<bar>?q\<bar> < power_int 2 53" by simp
  from exponent_less [OF q this] have e: "exponent ?q < 53" .
  define t where "t = max (exponent ?q - 52) (- 1074)"
  from e have t: "t \<le> 0" by (simp add: t_def)
  have p: "power_int (2::rat) t = 1 / 2 ^ nat (- t)"
    using t power_int_minus_divide [of "2::rat" "- t"] by (simp add: power_int_nonneg_exp)
  have "?q / power_int 2 t = of_int (n * 2 ^ nat (- t))"
    by (simp add: p)
  then have "round_half_even (?q / power_int 2 t) = n * 2 ^ nat (- t)"
    by (simp only: rhe_of_int)
  then have "of_int (round_half_even (?q / power_int 2 t)) * power_int 2 t = ?q"
    by (simp add: p)
  with False show ?thesis
    by (simp add: fl_def Let_def t_def)
qed

lemma fl_error:
  assumes "q \<noteq> 0" and "- 1022 \<le> exponent q"
  shows "\<bar>fl q - q\<bar> \<le> \<bar>q\<bar> / 2 ^ 53"
proof -
  define t where "t = exponent q - 52"
  define y where "y = q / power_int 2 t"
  have pt: "0 < power_int (2::rat) t" by simp
  from assms(2) have "max (exponent q - 52) (- 1074) = t"
    by (simp add: t_def)
  with assms(1) have fl: "fl q = of_int (round_half_even y) * power_int 2 t"
    by (simp add: fl_def Let_def y_def)
  have qy: "q = y * power_int 2 t" by (simp add: y_def)
  have "fl q - q = (of_int (round_half_even y) - y) * power_int 2 t"
    by (subst (2) qy) (simp add: fl algebra_simps)
  then have "\<bar>fl q - q\<bar> = \<bar>of_int (round_half_even y) - y\<bar> * power_int 2 t"
    by (simp add: abs_mult)
  also have "\<dots> \<le> 1 / 2 * power_int 2 t"
    using rhe_error [of y] pt by (intro mult_right_mono) simp_all
  finally have "\<bar>fl q - q\<bar> \<le> 1 / 2 * power_int 2 t" .
  moreover have "1 / 2 * power_int (2::rat) t = power_int 2 (exponent q) / 2 ^ 53"
    by (simp add: t_def power_int_diff)
  moreover have "power_int (2::rat) (exponent q) / 2 ^ 53 \<le> \<bar>q\<bar> / 2 ^ 53"
    using exponent_bounds(1) [OF assms(1)] by (simp add: divide_right_mono)
  ultimately show ?thesis by simp
qed

lemma exponent_quotient:
  assumes "p \<noteq> 0"
  shows "of_int p / (100::rat) \<noteq> 0" and "- 1022 \<le> exponent (of_int p / 100)"
proof -
  let ?q = "of_int p / 100 :: rat"
  from assms show q: "?q \<noteq> 0" by simp
  from assms have "1 \<le> \<bar>p\<bar>" by simp
  then have "(of_int 1 :: rat) \<le> of_int \<bar>p\<bar>" by (rule iffD2 [OF of_int_le_iff])
  then have "1 / 100 \<le> \<bar>?q\<bar>" by simp
  moreover have "power_int (2::rat) (- 7) \<le> 1 / 100"
    by (simp add: power_int_minus_divide)
  ultimately have "power_int 2 (- 7) \<le> \<bar>?q\<bar>" by simp
  from exponent_ge [OF q this] show "- 1022 \<le> exponent ?q" by simp
qed

lemma round2_quotient:
  assumes "\<bar>p\<bar> < 2 ^ 52"
  shows "py_round2 (fl (of_int p / 100)) = fl (of_int p / 100)"
proof (cases "p = 0")
  case True
  then show ?thesis by (simp add: py_round2_def fl_zero rhe_of_int [of 0, simplified])
next
  case False
  let ?q = "of_int p / 100 :: rat"
  from fl_error [OF exponent_quotient [OF False]]
  have "\<bar>fl ?q - ?q\<bar> \<le> \<bar>?q\<bar> / 2 ^ 53" .
  then have "\<bar>fl ?q * 100 - of_int p\<bar> \<le> \<bar>of_int p\<bar> / 2 ^ 53"
    by (simp add: abs_le_iff field_simps)
  moreover from assms have "(of_int \<bar>p\<bar> :: rat) < of_int (2 ^ 52)"
    by (rule iffD2 [OF of_int_less_iff])
  then have "\<bar>of_int p :: rat\<bar> / 2 ^ 53 < 1 / 2" by simp
  ultimately have "\<bar>fl ?q * 100 - of_int p\<bar> < 1 / 2" by simp
  from rhe_unique [OF this] show ?thesis
    by (simp add: py_round2_def)
qed

lemma round2_of_int:
  assumes "\<bar>n\<bar> < 2 ^ 53"
  shows "py_round2 (of_int n) = of_int n"
proof -
  have "round_half_even (of_int n * 100) = n * 100"
    using rhe_of_int [of "n * 100"] by simp
  then show ?thesis
    by (simp add: py_round2_def fl_of_int [OF assms])
qed

lemma not_too_large_int:
  assumes "\<bar>n\<bar> < 2 ^ 53"
  shows "\<not> too_large (of_int n)"
proof -
  from assms have "(of_int \<bar>n\<bar> :: rat) < of_int (2 ^ 53)" by (rule iffD2 [OF of_int_less_iff])
  then have "\<bar>of_int n :: rat\<bar> < 2 ^ 53" by simp
  also have "(2::rat) ^ 53 \<le> 2 ^ 1024" by (rule power_increasing) simp_all
  finally show ?thesis
    by (simp add: too_large_def fl_of_int [OF assms])
qed

lemma not_too_large_quotient:
  assumes "\<bar>p\<bar> < 2 ^ 52"
  shows "\<not> too_large (of_int p / 100)"
proof (cases "p = 0")
  case True
  then show ?thesis by (simp add: too_large_def fl_zero)
next
  case False
  let ?q = "of_int p / 100 :: rat"
  from fl_error [OF exponent_quotient [OF False]]
  have "\<bar>fl ?q - ?q\<bar> \<le> \<bar>?q\<bar> / 2 ^ 53" .
  moreover have "\<bar>?q\<bar> / 2 ^ 53 \<le> \<bar>?q\<bar>" by (simp add: field_simps)
  ultimately have "\<bar>fl ?q\<bar> \<le> 2 * \<bar>?q\<bar>" by linarith
  moreover from assms have "(of_int \<bar>p\<bar> :: rat) < of_int (2 ^ 52)"
    by (rule iffD2 [OF of_int_less_iff])
  then have "2 * \<bar>?q\<bar> < 2 ^ 52" by simp
  moreover have "(2::rat) ^ 52 \<le> 2 ^ 1024" by (rule power_increasing) simp_all
  ultimately show ?thesis
    by (simp add: too_large_def)
qed

lemma fl_eq:
  assumes "q \<noteq> 0" and "power_int 2 (t + 52) \<le> \<bar>q\<bar>" and "\<bar>q\<bar> < power_int 2 (t + 53)"
    and "- 1074 \<le> t" and "round_half_even (q / power_int 2 t) = m"
  shows "fl q = of_int m * power_int 2 t"
proof -
  from exponent_ge [OF assms(1,2)] have "t + 52 \<le> exponent q" .
  moreover from exponent_less [OF assms(1,3)] have "exponent q < t + 53" .
  ultimately have "exponent q - 52 = t" by simp
  with assms(4) have "max (exponent q - 52) (- 1074) = t" by simp
  with assms(1,5) show ?thesis by (simp add: fl_def Let_def)
qed

text \<open>The doubles of the sample prices: 0.4 and 0.4 / 100, 12345.6 and 12345.6 / 100,
  and the integer \<open>2\<^sup>5\<^sup>3 + 1\<close>, which is not a double.\<close>

lemma fl_two_fifths: "fl (2 / 5) = 3602879701896397 / 9007199254740992"
proof -
  have "round_half_even ((2 / 5) / power_int 2 (- 54)) = 7205759403792794"
    by (rule rhe_unique) (simp add: power_int_minus_divide)
  from fl_eq [OF _ _ _ _ this] show ?thesis
    by (simp add: power_int_minus_divide)
qed

lemma fl_final_price: "fl (fl (2 / 5) / 100) = 1152921504606847 / 288230376151711744"
proof -
  have "round_half_even ((3602879701896397 / 9007199254740992 / 100) / power_int 2 (- 60))
      = 4611686018427388"
    by (rule rhe_unique) (simp add: power_int_minus_divide)
  from fl_eq [OF _ _ _ _ this] show ?thesis
    by (simp add: power_int_minus_divide fl_two_fifths)
qed

lemma round_small_final_price: "py_round2 (fl (fl (2 / 5) / 100)) = 0"
proof -
  have "round_half_even (1152921504606847 / 288230376151711744 * 100) = 0"
    by (rule rhe_unique) simp
  then show ?thesis
    by (simp only: fl_final_price py_round2_def) (simp add: fl_zero)
qed

lemma fl_dish_price: "fl (61728 / 5) = 6787065375935693 / 549755813888"
proof -
  have "round_half_even ((61728 / 5) / power_int 2 (- 39)) = 6787065375935693"
    by (rule rhe_unique) (simp add: power_int_minus_divide)
  from fl_eq [OF _ _ _ _ this] show ?thesis
    by (simp add: power_int_minus_divide)
qed

lemma fl_dish_quotient: "fl (fl (61728 / 5) / 100) = 8687443681197687 / 70368744177664"
proof -
  have "round_half_even ((6787065375935693 / 549755813888 / 100) / power_int 2 (- 46))
      = 8687443681197687"
    by (rule rhe_unique) (simp add: power_int_minus_divide)
  from fl_eq [OF _ _ _ _ this] show ?thesis
    by (simp add: power_int_minus_divide fl_dish_price)
qed

lemma round_dish_price: "py_round2 (fl (fl (61728 / 5) / 100)) = fl (6173 / 50)"
proof -
  have "round_half_even (8687443681197687 / 70368744177664 * 100) = 12346"
    by (rule rhe_unique) simp
  then show ?thesis
    by (simp only: fl_dish_quotient py_round2_def) simp
qed

lemma fl_two_fifths_nonzero: "fl (2 / 5) \<noteq> 0"
  by (simp add: fl_two_fifths)

lemma fl_dish_price_nonzero: "fl (61728 / 5) \<noteq> 0"
  by (simp add: fl_dish_price)

lemma fl_dish_price_nonneg: "0 \<le> fl (61728 / 5)"
  by (simp add: fl_dish_price)

lemma trunc_dish_price: "\<lfloor>fl (61728 / 5)\<rfloor> = 12345"
  by (simp only: fl_dish_price) (rule floor_unique, simp_all)

lemma fl_above_53: "fl (9007199254740993) = 9007199254740992"
proof -
  have f: "\<lfloor>(9007199254740993::rat) / 2\<rfloor> = 4503599627370496"
    by (rule floor_unique) simp_all
  have "round_half_even (9007199254740993 / power_int 2 1) = 4503599627370496"
    by (simp add: round_half_even_def Let_def f)
  from fl_eq [OF _ _ _ _ this] show ?thesis
    by simp
qed

text \<open>A quotient of at least \<open>2\<^sup>1\<^sup>0\<^sup>2\<^sup>4\<close> is too large for a float, and \<open>2\<^sup>5\<^sup>3\<close> is a float.\<close>

lemma rhe_ge:
  assumes "of_int n \<le> x"
  shows "n \<le> round_half_even x"
proof -
  from assms have "n \<le> \<lfloor>x\<rfloor>" by (simp add: le_floor_iff)
  then show ?thesis by (simp add: round_half_even_def Let_def)
qed

lemma rhe_le:
  assumes "x \<le> of_int n"
  shows "round_half_even x \<le> n"
proof (cases "x = of_int n")
  case True
  then show ?thesis by (simp add: rhe_of_int)
next
  case False
  with assms have "x < of_int n" by simp
  then have "\<lfloor>x\<rfloor> < n" by (simp add: floor_less_iff)
  then show ?thesis by (simp add: round_half_even_def Let_def)
qed

lemma fl_ge_power:
  assumes "q \<noteq> 0" and "- 1022 \<le> exponent q"
  shows "power_int 2 (exponent q) \<le> \<bar>fl q\<bar>"
proof -
  define t where "t = exponent q - 52"
  define y where "y = q / power_int 2 t"
  define m where "m = round_half_even y"
  have pt: "0 < power_int (2::rat) t" by simp
  from assms(2) have "max (exponent q - 52) (- 1074) = t" by (simp add: t_def)
  with assms(1) have fl: "fl q = of_int m * power_int 2 t"
    by (simp add: fl_def Let_def y_def m_def)
  have e: "power_int (2::rat) (exponent q) = 2 ^ 52 * power_int 2 t"
    using power_int_add [of "2::rat" 52 t] by (simp add: t_def)
  from exponent_bounds(1) [OF assms(1)] have "2 ^ 52 * power_int 2 t \<le> \<bar>q\<bar>"
    by (simp add: e)
  then have y: "2 ^ 52 \<le> \<bar>y\<bar>"
    using pt by (simp add: y_def pos_le_divide_eq abs_of_pos)
  have "2 ^ 52 \<le> \<bar>m\<bar>"
  proof (cases "0 \<le> y")
    case True
    with y have "of_int (2 ^ 52) \<le> y" by simp
    from rhe_ge [OF this] show ?thesis by (simp add: m_def)
  next
    case False
    with y have "y \<le> of_int (- (2 ^ 52))" by simp
    from rhe_le [OF this] show ?thesis by (simp add: m_def)
  qed
  then have "(of_int (2 ^ 52) :: rat) \<le> of_int \<bar>m\<bar>" by (rule iffD2 [OF of_int_le_iff])
  then have "(2::rat) ^ 52 \<le> \<bar>of_int m\<bar>" by simp
  then have "2 ^ 52 * power_int 2 t \<le> \<bar>of_int m\<bar> * power_int (2::rat) t"
    using pt by (intro mult_right_mono) simp_all
  then show ?thesis
    by (simp add: fl e abs_mult)
qed

lemma too_large_ge:
  assumes "2 ^ 1024 \<le> \<bar>q\<bar>"
  shows "too_large q"
proof -
  have "0 < \<bar>q\<bar>" by (rule less_le_trans [OF _ assms]) simp
  then have q: "q \<noteq> 0" by auto
  from assms have "power_int 2 1024 \<le> \<bar>q\<bar>" by simp
  from exponent_ge [OF q this] have e: "1024 \<le> exponent q" .
  then have "power_int (2::rat) 1024 \<le> power_int 2 (exponent q)"
    by (intro power_int_increasing) simp_all
  also from e have "\<dots> \<le> \<bar>fl q\<bar>" by (intro fl_ge_power q) simp
  finally show ?thesis by (simp add: too_large_def)
qed


lemma fl_two_53: "fl 9007199254740992 = 9007199254740992"
proof -
  have "round_half_even (9007199254740992 / power_int 2 1) = 4503599627370496"
    by (rule rhe_unique) simp
  from fl_eq [OF _ _ _ _ this] show ?thesis
    by simp
qed

lemma round2_two_53: "py_round2 9007199254740992 = 9007199254740992"
proof -
  have "round_half_even (9007199254740992 * 100) = 900719925474099200"
    using rhe_of_int [of 900719925474099200] by simp
  then show ?thesis
    by (simp add: py_round2_def fl_two_53)
qed

text \<open>Divisions and roundings that are exact, as rewrite rules.\<close>

lemma int_truediv_100:
  assumes "\<bar>p\<bar> < 2 ^ 52"
  shows "int_truediv p 100 = Inr (fl (of_int p / 100))"
  using not_too_large_quotient [OF assms] by (simp add: int_truediv_def)

lemma int_truediv_1:
  assumes "\<bar>n\<bar> < 2 ^ 53"
  shows "int_truediv n 1 = Inr (of_int n)"
  using not_too_large_int [OF assms] fl_of_int [OF assms] by (simp add: int_truediv_def)

lemma fl_numeral: "(numeral k :: int) < 2 ^ 53 \<Longrightarrow> fl (numeral k) = numeral k"
  using fl_of_int [of "numeral k"] by simp

lemma fl_one: "fl 1 = 1"
  using fl_of_int [of 1] by simp

lemma round2_numeral: "(numeral k :: int) < 2 ^ 53 \<Longrightarrow> py_round2 (numeral k) = numeral k"
  using round2_of_int [of "numeral k"] by simp

lemma round2_zero: "py_round2 0 = 0"
  using round2_of_int [of 0] by simp

lemma round2_one: "py_round2 1 = 1"
  using round2_of_int [of 1] by simp

lemmas float_simps = int_truediv_100 int_truediv_1 fl_zero fl_numeral fl_one
  round2_quotient round2_numeral round2_zero round2_one


section \<open>Prices at the edges of the floats and of the integer strings\<close>

text \<open>
  An integer price above \<open>2\<^sup>5\<^sup>3\<close> is stored as the nearest double: a variation priced
  \<open>2\<^sup>5\<^sup>3 + 1\<close> gets the delta 9007199254740992.0. A dish priced \<open>10\<^sup>4\<^sup>0\<^sup>0\<close> raises
  \<^verbatim>\<open>OverflowError\<close> in the division by 100. The float price 267.5 divided by 100 is a
  double just below 2.675, so it is rounded to 2.67. A price string with a leading
  separator character 28 is stripped by \<^verbatim>\<open>str.strip\<close> but rejected by \<^verbatim>\<open>int\<close>, and so
  is a string of 4301 digits.
\<close>

lemma variant_price_above_53:
  "variant_record g (JObj [(''price'', JInt 9007199254740993)])
     = Inr (JObj
          [(''variant_group'', g),
           (''variant_name'', JNull),
           (''variant_price_add'', JFloat 9007199254740992),
           (''variant_inStock'', JNull),
           (''variant_isDefault'', JInt 0),
           (''variant_isEnabled'', JBool True)])"
  by (simp add: dget_def py_or_def int_truediv_def too_large_def fl_above_53 round2_two_53)

lemma dish_price_overflow:
  "parse_item str_of (JObj [(''price'', JInt (10 ^ 400))]) rn ri ct sz = Inl OverflowError"
proof -
  have "(2::rat) ^ 1024 \<le> 10 ^ 398" by simp
  then have "too_large (of_int (10 ^ 400) / 100)"
    by (intro too_large_ge) simp
  then show ?thesis
    by (simp add: parse_item_def dget_def py_or_def int_truediv_def)
qed

lemma fl_tie_quotient: "fl (535 / 2 / 100) = 3011782250804019 / 1125899906842624"
proof -
  have "round_half_even ((535 / 2 / 100) / power_int 2 (- 51)) = 6023564501608038"
    by (rule rhe_unique) (simp add: power_int_minus_divide)
  from fl_eq [OF _ _ _ _ this] show ?thesis
    by (simp add: power_int_minus_divide)
qed

lemma round_below_tie: "py_round2 (fl (535 / 2 / 100)) = fl (267 / 100)"
proof -
  have "round_half_even (3011782250804019 / 1125899906842624 * 100) = 267"
    by (rule rhe_unique) simp
  then show ?thesis
    by (simp only: fl_tie_quotient py_round2_def) simp
qed

lemma int_of_str_separator:
  "int_of_str [CHR 0x1C, CHR ''1'', CHR ''2''] = Inl ValueError \<and>
   strip [CHR 0x1C, CHR ''1'', CHR ''2''] = ''12'' \<and>
   int_of_str '' 12'' = Inr 12"
  by (simp add: int_of_str_def int_strip_def is_int_space_def strip_def is_space_def
      digits_val_def is_digit_def max_str_digits_def)

lemma int_of_str_too_long: "int_of_str (replicate 4301 (CHR ''1'')) = Inl ValueError"
proof -
  have "(4301::nat) = Suc 4300" by simp
  then have r: "replicate 4301 (CHR ''1'') = CHR ''1'' # replicate 4300 (CHR ''1'')"
    by (simp only: replicate.simps)
  have "is_int_space (CHR ''1'') = False" by (simp add: is_int_space_def)
  then have "int_strip (replicate 4301 (CHR ''1'')) = replicate 4301 (CHR ''1'')"
    by (simp add: int_strip_def)
  then have "int_of_str (replicate 4301 (CHR ''1'')) = digits_val (replicate 4301 (CHR ''1''))"
    by (simp add: int_of_str_def r)
  then show ?thesis
    by (simp add: digits_val_def max_str_digits_def)
qed

section \<open>Loops and exceptions\<close>

lemma then_do_Inr: "then_do m f = Inr y \<longleftrightarrow> (\<exists>x. m = Inr x \<and> f x = Inr y)"
  by (cases m) auto

text \<open>A property of the state that every run of the body keeps, also a run that raises,
  holds of the state the loop ends in.\<close>

lemma for_each_invariant:
  assumes "\<And>x s. P s \<Longrightarrow> P (fst (body x s))" and "P s"
  shows "P (fst (for_each body xs s))"
  using assms(2)
proof (induction xs arbitrary: s)
  case Nil
  then show ?case by simp
next
  case (Cons x xs)
  from assms(1) [OF Cons.prems] have "P (fst (body x s))" .
  with Cons.IH show ?case
    by (cases "body x s") (auto split: option.splits)
qed

lemma extend_invariant:
  assumes "list_all Q items" and "\<And>rs. r = Inr rs \<Longrightarrow> list_all Q rs"
  shows "list_all Q (fst (py_extend r items))"
  using assms by (cases r) (simp_all add: py_extend_def)

text \<open>Every record of the menu parser is made by \<open>parse_item\<close>, so a property of the
  records of \<open>parse_item\<close> is a property of every record the menu parser returns.\<close>

lemma category_body_records:
  assumes item: "\<And>info rn ri ct sz rs. parse_item str_of info rn ri ct sz = Inr rs \<Longrightarrow> list_all Q rs"
    and items: "list_all Q items"
  shows "list_all Q (fst (category_body str_of ctx cat items))"
proof -
  obtain rn ri sz where ctx: "ctx = (rn, ri, sz)" by (cases ctx)
  let ?hd = "then_do (dict_get cat ''title'' JNull) (\<lambda>t.
           then_do (dict_get cat ''itemCards'' (JList [])) (\<lambda>item_cards.
           then_do (py_iter item_cards) (\<lambda>ics. Inr (py_or t (JStr ''''), ics))))"
  show ?thesis
  proof (cases ?hd)
    case (Inl e)
    with items show ?thesis by (simp add: category_body_def ctx)
  next
    case (Inr p)
    obtain t ics where p: "p = (t, ics)" by (cases p)
    have "list_all Q
            (fst (for_each (\<lambda>itemCard items.
              py_extend (then_do (category_item_info itemCard) (\<lambda>info.
                        parse_item str_of info rn ri t sz)) items) ics items))"
    proof (rule for_each_invariant [where P = "list_all Q"])
      fix x s
      assume s: "list_all Q s"
      show "list_all Q (fst (py_extend (then_do (category_item_info x) (\<lambda>info.
                        parse_item str_of info rn ri t sz)) s))"
      proof (rule extend_invariant [OF s])
        fix rs
        assume "then_do (category_item_info x) (\<lambda>info.
                        parse_item str_of info rn ri t sz) = Inr rs"
        then obtain info where "parse_item str_of info rn ri t sz = Inr rs"
          by (auto simp: then_do_Inr)
        then show "list_all Q rs" by (rule item)
      qed
    qed (rule items)
    with Inr p show ?thesis by (simp add: category_body_def ctx)
  qed
qed

lemma card_body_records:
  assumes item: "\<And>info rn ri ct sz rs. parse_item str_of info rn ri ct sz = Inr rs \<Longrightarrow> list_all Q rs"
    and items: "list_all Q items"
  shows "list_all Q (fst (card_body str_of ctx c items))"
proof -
  obtain rn ri sz where ctx: "ctx = (rn, ri, sz)" by (cases ctx)
  let ?hd = "then_do (dict_get c ''card'' (JObj [])) (\<lambda>a.
           then_do (dict_get a ''card'' (JObj [])) (\<lambda>card_obj.
           then_do (dict_get card_obj ''categories'' JNull) (\<lambda>categories.
             Inr (card_obj, categories))))"
  show ?thesis
  proof (cases ?hd)
    case (Inl e)
    with items show ?thesis by (simp add: card_body_def ctx)
  next
    case (Inr p)
    obtain card_obj categories where p: "p = (card_obj, categories)" by (cases p)
    show ?thesis
    proof (cases "truthy categories")
      case True
      show ?thesis
      proof (cases "py_iter categories")
        case (Inl e)
        with Inr p True items show ?thesis by (simp add: card_body_def ctx)
      next
        case cats: (Inr cats)
        have "list_all Q (fst (for_each (category_body str_of (rn, ri, sz)) cats items))"
          by (rule for_each_invariant [where P = "list_all Q"])
             (rule category_body_records, rule item, assumption+, rule items)
        with Inr p True cats show ?thesis by (simp add: card_body_def ctx)
      qed
    next
      case False
      show ?thesis
      proof (cases "then_do (dict_get card_obj ''itemCards'' (JList [])) py_iter")
        case (Inl e)
        with Inr p False items show ?thesis by (simp add: card_body_def ctx)
      next
        case ics: (Inr ics)
        have "list_all Q (fst (for_each (\<lambda>itemCard items.
                     py_extend (then_do (flat_item_info itemCard) (\<lambda>info.
                             then_do (dict_get card_obj ''title'' (JStr '''')) (\<lambda>t.
                               parse_item str_of info rn ri (py_or t (JStr '''')) sz)))
                       items) ics items))"
        proof (rule for_each_invariant [where P = "list_all Q"])
          fix x s
          assume s: "list_all Q s"
          show "list_all Q (fst (py_extend (then_do (flat_item_info x) (\<lambda>info.
                             then_do (dict_get card_obj ''title'' (JStr '''')) (\<lambda>t.
                               parse_item str_of info rn ri (py_or t (JStr '''')) sz))) s))"
          proof (rule extend_invariant [OF s])
            fix rs
            assume "then_do (flat_item_info x) (\<lambda>info.
                             then_do (dict_get card_obj ''title'' (JStr '''')) (\<lambda>t.
                               parse_item str_of info rn ri (py_or t (JStr '''')) sz)) = Inr rs"
            then obtain info t where "parse_item str_of info rn ri (py_or t (JStr '''')) sz = Inr rs"
              by (auto simp: then_do_Inr)
            then show "list_all Q rs" by (rule item)
          qed
        qed (rule items)
        with Inr p False ics show ?thesis by (simp add: card_body_def ctx)
      qed
    qed
  qed
qed

lemma parse_menu_records:
  assumes item: "\<And>info rn ri ct sz rs. parse_item str_of info rn ri ct sz = Inr rs \<Longrightarrow> list_all Q rs"
    and menu: "parse_menu_from_data str_of data = Inr items"
  shows "list_all Q items"
proof -
  have loop: "list_all Q (fst (for_each (card_body str_of ctx) gcs []))" for ctx gcs
    by (rule for_each_invariant [where P = "list_all Q"])
       (rule card_body_records, rule item, assumption+, simp)
  have "list_all Q (fst (parse_menu_body str_of data))"
    unfolding parse_menu_body_def Let_def
    by (simp split: sum.splits add: loop)
  with menu show ?thesis
    by (auto simp: parse_menu_from_data_def split: prod.splits)
qed

section \<open>Evaluation on the sample document\<close>

lemmas menu_defs = parse_menu_from_data_def parse_menu_body_def card_body_def category_body_def
  restaurant_probe_def grouped_probe_def flat_item_info_def category_item_info_def py_extend_def
  parse_item_def parse_variants_def variant_group_def dget_def py_or_def Let_def
  menu_document_def item_card_def

lemma parse_item_burger:
  "parse_item str_of burger rn ri ct sz =
     Inr [JObj
        [(''res_id'', ri), (''restaurant'', rn),
         (''subzone'', py_or sz (JStr '''')), (''category'', py_or ct (JStr '''')),
         (''dish_name'', JStr ''Burger''), (''description'', JStr ''''),
         (''base_price'', JFloat 150), (''final_price'', JFloat 120),
         (''flashSale'', JStr ''ON''), (''inStock'', JBool True),
         (''image'', JNull), (''variants'', JList [])]]"
  by (simp add: burger_def parse_item_def parse_variants_def dget_def Let_def float_simps
      py_or_def)

lemma parse_menu_burger:
  "parse_menu_from_data str_of (menu_document ''Mains'' [item_card burger]) =
     Inr [JObj
        [(''res_id'', JStr ''42''), (''restaurant'', JStr ''Test Diner''),
         (''subzone'', JStr ''Andheri''), (''category'', JStr ''Mains''),
         (''dish_name'', JStr ''Burger''), (''description'', JStr ''''),
         (''base_price'', JFloat 150), (''final_price'', JFloat 120),
         (''flashSale'', JStr ''ON''), (''inStock'', JBool True),
         (''image'', JNull), (''variants'', JList [])]]"
  by (simp add: burger_def menu_defs float_simps)

section \<open>The flash-sale flag\<close>

lemma parse_item_flash:
  assumes "parse_item str_of info rn ri ct sz = Inr rs"
  shows "list_all (is_record_with flash_sale_amended) rs"
proof (cases "truthy info")
  case False
  with assms show ?thesis by (simp add: parse_item_def)
next
  case True
  show ?thesis
  proof (cases info)
    case (JObj kvs)
    with True assms show ?thesis
      by (auto simp: parse_item_def Let_def then_do_Inr flash_sale_amended_def dget_def
          split: if_splits json.splits)
  qed (use True assms in \<open>simp_all add: parse_item_def\<close>)
qed

text \<open>
  Claim C1, as the code has it. For every record produced by \<open>parse_item\<close>, and so for
  every record \<open>parse_menu_from_data\<close> returns, the flash-sale flag is ON if and only
  if the final price is present, is not zero, and is strictly less than the base price.
\<close>

theorem flash_sale_invariant:
  "(parse_item str_of info rn ri ct sz = Inr rs \<longrightarrow>
      list_all (is_record_with flash_sale_amended) rs) \<and>
   (parse_menu_from_data str_of data = Inr items \<longrightarrow>
      list_all (is_record_with flash_sale_amended) items)"
  using parse_item_flash parse_menu_records [where Q = "is_record_with flash_sale_amended"]
  by blast

theorem flash_sale_invariant_witness:
  "(\<exists>d. parse_item (\<lambda>x. []) burger JNull JNull JNull JNull = Inr [JObj d] \<and>
        flash_sale_amended d \<and> dget d ''flashSale'' JNull = JStr ''ON'') \<and>
   (\<exists>d. parse_menu_from_data (\<lambda>x. []) (menu_document ''Mains'' [item_card burger]) = Inr [JObj d] \<and>
        flash_sale_amended d \<and> dget d ''flashSale'' JNull = JStr ''ON'')"
proof -
  obtain d1 where d1: "parse_item (\<lambda>x. []) burger JNull JNull JNull JNull = Inr [JObj d1]"
    and f1: "dget d1 ''flashSale'' JNull = JStr ''ON''"
    by (simp add: parse_item_burger dget_def)
  obtain d2 where d2: "parse_menu_from_data (\<lambda>x. []) (menu_document ''Mains'' [item_card burger])
      = Inr [JObj d2]"
    and f2: "dget d2 ''flashSale'' JNull = JStr ''ON''"
    by (simp add: parse_menu_burger dget_def)
  from flash_sale_invariant [of "\<lambda>x. []" burger JNull JNull JNull JNull "[JObj d1]"
      "menu_document ''Mains'' [item_card burger]" "[JObj d2]"] d1 d2
  have "flash_sale_amended d1" and "flash_sale_amended d2" by simp_all
  with d1 f1 d2 f2 show ?thesis by blast
qed

text \<open>
  The claim as stated fails for a final price that rounds to zero: the item node
  \<^verbatim>\<open>{"price": 100, "finalPrice": 0.4}\<close> gets the base price 1.0 and the final price 0.0,
  which is present and below the base price, and the flag is OFF.
\<close>

theorem flash_sale_counterexample:
  "\<exists>d. parse_item (\<lambda>x. []) (JObj [(''price'', JInt 100), (''finalPrice'', JFloat (fl (2 / 5)))])
          JNull JNull JNull JNull = Inr [JObj d] \<and>
       dget d ''base_price'' JNull = JFloat 1 \<and>
       dget d ''final_price'' JNull = JFloat 0 \<and>
       dget d ''flashSale'' JNull = JStr ''OFF'' \<and>
       \<not> flash_sale_claimed d"
  by (simp add: parse_item_def parse_variants_def dget_def py_or_def flash_sale_claimed_def
      Let_def float_simps fl_two_fifths_nonzero round_small_final_price)

section \<open>The in-stock flag\<close>

lemma dget_Nil: "dget [] k d = d"
  by (simp add: dget_def)

lemma dget_Cons: "dget ((k', v) # kvs) k d = (if k' = k then v else dget kvs k d)"
  by (simp add: dget_def)

lemma parse_item_in_stock:
  assumes "parse_item str_of (JObj kvs) rn ri ct sz = Inr [JObj d]"
  shows "dget d ''inStock'' JNull = JBool (truthy (dget kvs ''inStock'' (JInt 0)))"
proof -
  from assms have "kvs \<noteq> []"
    by (auto simp: parse_item_def)
  with assms obtain b f vs where
    "d = [(''res_id'', ri), (''restaurant'', rn), (''subzone'', py_or sz (JStr '''')),
          (''category'', py_or ct (dget kvs ''category'' (JStr ''''))),
          (''dish_name'', dget kvs ''name'' (JStr '''')),
          (''description'', py_or (dget kvs ''description'' (JStr '''')) (JStr '''')),
          (''base_price'', b), (''final_price'', f), (''flashSale'', vs),
          (''inStock'', JBool (truthy (dget kvs ''inStock'' (JInt 0))))] @
         drop 10 d"
    by (auto simp: parse_item_def Let_def then_do_Inr)
  then have "dget d ''inStock'' JNull =
      dget ([(''res_id'', ri), (''restaurant'', rn), (''subzone'', py_or sz (JStr '''')),
          (''category'', py_or ct (dget kvs ''category'' (JStr ''''))),
          (''dish_name'', dget kvs ''name'' (JStr '''')),
          (''description'', py_or (dget kvs ''description'' (JStr '''')) (JStr '''')),
          (''base_price'', b), (''final_price'', f), (''flashSale'', vs),
          (''inStock'', JBool (truthy (dget kvs ''inStock'' (JInt 0))))] @
         drop 10 d) ''inStock'' JNull"
    by simp
  then show ?thesis
    by (simp add: dget_Cons)
qed

lemma parse_item_record_is_dict:
  assumes "parse_item str_of info rn ri ct sz = Inr [r]"
  shows "\<exists>kvs. info = JObj kvs \<and> kvs \<noteq> []"
proof (cases "truthy info")
  case False
  with assms show ?thesis by (simp add: parse_item_def)
next
  case True
  with assms show ?thesis by (cases info) (simp_all add: parse_item_def)
qed

text \<open>
  Claim C10. When \<open>parse_item\<close> makes a record of an item node, the node is a non-empty
  dictionary and the record's in-stock flag is the truth value of the node's
  \<^verbatim>\<open>inStock\<close> value, with 0 as the default: False when the key is missing, False when
  the value is 0, \<^verbatim>\<open>None\<close> or empty, and True for any other value, such as 1.
\<close>

theorem in_stock_flag:
  assumes "parse_item str_of info rn ri ct sz = Inr [JObj d]"
  shows "\<exists>kvs. info = JObj kvs \<and> kvs \<noteq> [] \<and>
           dget d ''inStock'' JNull =
             JBool (case map_of kvs ''inStock'' of None \<Rightarrow> truthy (JInt 0) | Some v \<Rightarrow> truthy v)"
proof -
  from parse_item_record_is_dict [OF assms] obtain kvs
    where info: "info = JObj kvs" and ne: "kvs \<noteq> []" by blast
  from parse_item_in_stock [OF assms [unfolded info]]
  have "dget d ''inStock'' JNull =
      JBool (case map_of kvs ''inStock'' of None \<Rightarrow> truthy (JInt 0) | Some v \<Rightarrow> truthy v)"
    by (simp add: dget_def split: option.splits)
  with info ne show ?thesis by blast
qed

theorem in_stock_flag_witness:
  "(\<exists>d. parse_item (\<lambda>x. []) burger JNull JNull JNull JNull = Inr [JObj d] \<and>
        map_of [(''name'', JStr ''Burger''), (''price'', JInt 15000),
                (''finalPrice'', JInt 12000), (''inStock'', JInt 1)] ''inStock'' = Some (JInt 1) \<and>
        dget d ''inStock'' JNull = JBool True) \<and>
   (\<exists>d. parse_item (\<lambda>x. []) (JObj [(''name'', JStr ''Tea'')]) JNull JNull JNull JNull
          = Inr [JObj d] \<and>
        map_of [(''name'', JStr ''Tea'')] ''inStock'' = None \<and>
        dget d ''inStock'' JNull = JBool False) \<and>
   (\<exists>d. parse_item (\<lambda>x. []) (JObj [(''name'', JStr ''Tea''), (''inStock'', JNull)])
          JNull JNull JNull JNull = Inr [JObj d] \<and>
        dget d ''inStock'' JNull = JBool False)"
proof -
  obtain d1 where d1: "parse_item (\<lambda>x. []) burger JNull JNull JNull JNull = Inr [JObj d1]"
    by (simp add: parse_item_burger)
  obtain d2 where d2: "parse_item (\<lambda>x. []) (JObj [(''name'', JStr ''Tea'')])
      JNull JNull JNull JNull = Inr [JObj d2]"
    by (simp add: parse_item_def parse_variants_def dget_def py_or_def Let_def float_simps)
  obtain d3 where d3: "parse_item (\<lambda>x. []) (JObj [(''name'', JStr ''Tea''), (''inStock'', JNull)])
      JNull JNull JNull JNull = Inr [JObj d3]"
    by (simp add: parse_item_def parse_variants_def dget_def py_or_def Let_def float_simps)
  from in_stock_flag [OF d1] have "dget d1 ''inStock'' JNull = JBool True"
    by (simp add: burger_def)
  moreover from in_stock_flag [OF d2] have "dget d2 ''inStock'' JNull = JBool False"
    by simp
  moreover from in_stock_flag [OF d3] have "dget d3 ''inStock'' JNull = JBool False"
    by simp
  ultimately show ?thesis using d1 d2 d3 by simp
qed

section \<open>Prices that are not numbers\<close>

text \<open>
  Claim C3 does not hold of the code for a dish node. A truthy value that is not a number
  in \<^verbatim>\<open>price\<close>, \<^verbatim>\<open>defaultPrice\<close> or \<^verbatim>\<open>finalPrice\<close> of a dish node is divided by 100 as
  it is, which raises \<^verbatim>\<open>TypeError\<close>: \<open>parse_item\<close> makes no record, and the menu
  parser, whose only handler is the outer one, returns what it had collected. Only the
  price of a variation goes through \<^verbatim>\<open>int\<close> inside a \<^verbatim>\<open>try\<close> and becomes 0.
\<close>

theorem non_numeric_dish_price_raises:
  "parse_item str_of (JObj [(''name'', JStr ''Tea''), (''price'', JStr ''abc'')]) rn ri ct sz
     = Inl TypeError \<and>
   parse_item str_of (JObj [(''name'', JStr ''Tea''), (''price'', JInt 100),
                            (''finalPrice'', JStr ''abc'')]) rn ri ct sz
     = Inl TypeError \<and>
   parse_menu_from_data str_of (menu_document ''Mains''
       [item_card (JObj [(''name'', JStr ''Tea''), (''price'', JStr ''abc'')])])
     = Inr [] \<and>
   variant_record g (JObj [(''name'', JStr ''Large''), (''price'', JStr ''abc'')])
     = Inr (JObj
          [(''variant_group'', g),
           (''variant_name'', JStr ''Large''),
           (''variant_price_add'', JFloat 0),
           (''variant_inStock'', JNull),
           (''variant_isDefault'', JInt 0),
           (''variant_isEnabled'', JBool True)])"
proof -
  have "parse_item str_of (JObj [(''name'', JStr ''Tea''), (''price'', JStr ''abc'')]) rn ri ct sz
     = Inl TypeError"
    by (simp add: parse_item_def dget_def py_or_def)
  moreover have "parse_item str_of (JObj [(''name'', JStr ''Tea''), (''price'', JInt 100),
                            (''finalPrice'', JStr ''abc'')]) rn ri ct sz = Inl TypeError"
    by (simp add: parse_item_def dget_def py_or_def Let_def float_simps)
  moreover have "parse_menu_from_data str_of (menu_document ''Mains''
       [item_card (JObj [(''name'', JStr ''Tea''), (''price'', JStr ''abc'')])]) = Inr []"
    by (simp add: menu_defs)
  moreover have "variant_record g (JObj [(''name'', JStr ''Large''), (''price'', JStr ''abc'')])
     = Inr (JObj
          [(''variant_group'', g),
           (''variant_name'', JStr ''Large''),
           (''variant_price_add'', JFloat 0),
           (''variant_inStock'', JNull),
           (''variant_isDefault'', JInt 0),
           (''variant_isEnabled'', JBool True)])"
    by (simp add: dget_def py_or_def int_of_str_def int_strip_def is_int_space_def
        digits_val_def is_digit_def float_simps)
  ultimately show ?thesis by simp
qed

section \<open>A unit of the menu that fails\<close>

text \<open>
  Claim C4 does not hold of the code. The loop over the menu cards has no handler of its
  own: an exception in one item card ends the whole traversal in the outer handler. With
  an item card that is a string before the item card of a good dish, the good dish is
  never reached and nothing is returned; with the same string after it, the dish is
  returned.
\<close>

theorem failing_item_card_ends_traversal:
  "parse_menu_from_data str_of (menu_document ''Mains'' [JStr ''x'', item_card burger])
     = Inr [] \<and>
   parse_menu_from_data str_of (menu_document ''Mains'' [item_card burger, JStr ''x''])
     = parse_menu_from_data str_of (menu_document ''Mains'' [item_card burger]) \<and>
   (\<exists>r. parse_menu_from_data str_of (menu_document ''Mains'' [item_card burger]) = Inr [r])"
proof -
  have "parse_menu_from_data str_of (menu_document ''Mains'' [JStr ''x'', item_card burger])
     = Inr []"
    by (simp add: burger_def menu_defs float_simps)
  moreover have "parse_menu_from_data str_of (menu_document ''Mains'' [item_card burger, JStr ''x''])
     = parse_menu_from_data str_of (menu_document ''Mains'' [item_card burger])"
    by (simp add: burger_def menu_defs float_simps)
  moreover have "\<exists>r. parse_menu_from_data str_of (menu_document ''Mains'' [item_card burger])
     = Inr [r]"
    by (simp add: parse_menu_burger)
  ultimately show ?thesis by simp
qed

section \<open>Prices of dishes and of variants\<close>

text \<open>
  Claim C6. Dish base prices are divided by 100 and rounded to 2 decimal places, and
  variant price deltas are not divided. For a dish node whose price is an integer \<open>p\<close> of
  minor units below \<open>2\<^sup>5\<^sup>2\<close>, the base price is the double nearest to \<open>p / 100\<close>, which the
  rounding to 2 places leaves as it is, and a variation with the same price inside a
  variant group of that dish gets the price delta \<open>p\<close>: at \<open>p = 25000\<close> these are 250.00 and
  25000. For a dish node whose price is a float \<open>q\<close>, the base price is the double nearest
  to \<open>k / 100\<close> for an integer \<open>k\<close> within one half of 100 times the quotient \<^verbatim>\<open>q / 100\<close>.
  With the float 12345.6 as the price of both, the base price is 123.46 (the quotient is
  the double of 123.456) and the price delta is 12345.0.
\<close>

theorem price_divisor_asymmetry:
  "(\<bar>p\<bar> < 2 ^ 52 \<longrightarrow>
      (\<exists>d v. parse_item str_of
          (JObj [(''price'', JInt p),
                 (''variantsV2'', JObj [(''variantGroups'', JList
                    [JObj [(''name'', g),
                           (''variations'', JList [JObj [(''price'', JInt p)]])]])])])
          rn ri ct sz = Inr [JObj d]
        \<and> dget d ''base_price'' JNull = JFloat (fl (of_int p / 100))
        \<and> dget d ''variants'' JNull = JList [JObj v]
        \<and> dget v ''variant_price_add'' JNull = JFloat (of_int p))) \<and>
   (q \<noteq> 0 \<longrightarrow>
      (\<exists>d k. parse_item str_of (JObj [(''price'', JFloat q)]) rn ri ct sz = Inr [JObj d]
        \<and> dget d ''base_price'' JNull = JFloat (fl (of_int k / 100))
        \<and> \<bar>of_int k - fl (q / 100) * 100\<bar> \<le> 1 / 2)) \<and>
   (\<exists>d v. parse_item str_of
          (JObj [(''price'', JFloat (fl (61728 / 5))),
                 (''variantsV2'', JObj [(''variantGroups'', JList
                    [JObj [(''name'', g),
                           (''variations'', JList [JObj [(''price'', JFloat (fl (61728 / 5)))]])]])])])
          rn ri ct sz = Inr [JObj d]
        \<and> dget d ''base_price'' JNull = JFloat (fl (6173 / 50))
        \<and> dget d ''variants'' JNull = JList [JObj v]
        \<and> dget v ''variant_price_add'' JNull = JFloat 12345)"
proof (intro conjI impI)
  assume b: "\<bar>p\<bar> < 2 ^ 52"
  then have b': "\<bar>p\<bar> < 2 ^ 53" by simp
  show "\<exists>d v. parse_item str_of
          (JObj [(''price'', JInt p),
                 (''variantsV2'', JObj [(''variantGroups'', JList
                    [JObj [(''name'', g),
                           (''variations'', JList [JObj [(''price'', JInt p)]])]])])])
          rn ri ct sz = Inr [JObj d]
        \<and> dget d ''base_price'' JNull = JFloat (fl (of_int p / 100))
        \<and> dget d ''variants'' JNull = JList [JObj v]
        \<and> dget v ''variant_price_add'' JNull = JFloat (of_int p)"
    by (simp add: parse_item_def parse_variants_def variant_group_def dget_def py_or_def
        int_truediv_100 [OF b] int_truediv_1 [OF b'] round2_quotient [OF b]
        round2_of_int [OF b'] float_simps)
next
  assume q: "q \<noteq> 0"
  define k where "k = round_half_even (fl (q / 100) * 100)"
  have "\<bar>of_int k - fl (q / 100) * 100\<bar> \<le> 1 / 2"
    unfolding k_def by (rule rhe_error)
  moreover have "py_round2 (fl (q / 100)) = fl (of_int k / 100)"
    by (simp add: py_round2_def k_def)
  ultimately show "\<exists>d k. parse_item str_of (JObj [(''price'', JFloat q)]) rn ri ct sz
          = Inr [JObj d]
        \<and> dget d ''base_price'' JNull = JFloat (fl (of_int k / 100))
        \<and> \<bar>of_int k - fl (q / 100) * 100\<bar> \<le> 1 / 2"
    using q by (auto simp: parse_item_def parse_variants_def dget_def py_or_def)
next
  show "\<exists>d v. parse_item str_of
          (JObj [(''price'', JFloat (fl (61728 / 5))),
                 (''variantsV2'', JObj [(''variantGroups'', JList
                    [JObj [(''name'', g),
                           (''variations'', JList [JObj [(''price'', JFloat (fl (61728 / 5)))]])]])])])
          rn ri ct sz = Inr [JObj d]
        \<and> dget d ''base_price'' JNull = JFloat (fl (6173 / 50))
        \<and> dget d ''variants'' JNull = JList [JObj v]
        \<and> dget v ''variant_price_add'' JNull = JFloat 12345"
    by (simp add: parse_item_def parse_variants_def variant_group_def dget_def py_or_def
        fl_dish_price_nonzero fl_dish_price_nonneg round_dish_price trunc_dish_price
        float_simps)
qed

theorem price_divisor_asymmetry_witness:
  "(\<exists>d v. parse_item (\<lambda>x. [])
      (JObj [(''price'', JInt 25000),
             (''variantsV2'', JObj [(''variantGroups'', JList
                [JObj [(''name'', JStr ''Size''),
                       (''variations'', JList [JObj [(''price'', JInt 25000)]])]])])])
      JNull JNull JNull JNull = Inr [JObj d]
    \<and> dget d ''base_price'' JNull = JFloat 250
    \<and> dget d ''variants'' JNull = JList [JObj v]
    \<and> dget v ''variant_price_add'' JNull = JFloat 25000) \<and>
   (\<exists>d k. parse_item (\<lambda>x. []) (JObj [(''price'', JFloat (1 / 2))]) JNull JNull JNull JNull
      = Inr [JObj d]
    \<and> dget d ''base_price'' JNull = JFloat (fl (of_int k / 100))
    \<and> \<bar>of_int k - fl (1 / 2 / 100) * 100\<bar> \<le> 1 / 2)"
  using price_divisor_asymmetry
    [of 25000 "\<lambda>x. []" "JStr ''Size''" JNull JNull JNull JNull "1 / 2"]
  by (simp add: float_simps)

section \<open>The parsers never raise\<close>

lemma dict_get_non_dict: "\<not> is_dict c \<Longrightarrow> dict_get c k d = Inl AttributeError"
  by (cases c) simp_all

lemma non_dict_no_group: "\<not> is_dict c \<Longrightarrow> no_group c"
  by (simp add: no_group_def grouped_probe_def dict_get_non_dict)

lemma non_dict_no_offers: "\<not> is_dict c \<Longrightarrow> no_offers c"
  by (simp add: no_offers_def card_offers_def dict_get_non_dict)

lemma grouped_scan_no_group:
  "list_all no_group cs \<Longrightarrow> grouped_scan cs = JList []"
  by (induction cs) (simp_all add: no_group_def split: sum.splits)

lemma offers_loop_no_offers:
  "list_all no_offers cs \<Longrightarrow> for_each (offers_card_body ctx) cs s = (s, None)"
  by (induction cs)
    (simp_all add: no_offers_def card_offers_def offers_card_body_def split: sum.splits)

lemma parse_menu_cards:
  "parse_menu_body str_of data =
     (case cards_of data of
        Inl e \<Rightarrow> ([], Some e)
      | Inr cards \<Rightarrow>
          (case py_iter (grouped_scan cards) of
                Inl e \<Rightarrow> ([], Some e)
              | Inr gcs \<Rightarrow> for_each (card_body str_of (restaurant_scan cards)) gcs []))"
  by (simp add: parse_menu_body_def cards_of_def Let_def split: sum.splits)

lemma extract_offers_cards:
  "extract_offers_body data =
     (case cards_of data of
        Inl e \<Rightarrow> ([], Some e)
      | Inr cards \<Rightarrow> for_each (offers_card_body (offers_restaurant_scan cards)) cards [])"
  by (simp add: extract_offers_body_def cards_of_def split: sum.splits)

lemma menu_empty:
  "no_menu_group data \<Longrightarrow> parse_menu_from_data str_of data = Inr []"
  by (auto simp: no_menu_group_def parse_menu_from_data_def parse_menu_cards
      grouped_scan_no_group split: sum.splits prod.splits)

lemma offers_empty:
  "no_offer_list data \<Longrightarrow> extract_offers_from_data data = Inr []"
  by (auto simp: no_offer_list_def extract_offers_from_data_def extract_offers_cards
      offers_loop_no_offers split: sum.splits prod.splits)

lemma no_mapping_no_group: "no_card_is_mapping data \<Longrightarrow> no_menu_group data"
  by (auto simp: no_card_is_mapping_def no_menu_group_def list_all_iff non_dict_no_group
      split: sum.splits)

lemma no_mapping_no_offers: "no_card_is_mapping data \<Longrightarrow> no_offer_list data"
  by (auto simp: no_card_is_mapping_def no_offer_list_def list_all_iff non_dict_no_offers
      split: sum.splits)

lemmas offers_defs = extract_offers_from_data_def extract_offers_body_def offers_card_body_def
  offers_candidates_def offer_record_def offers_restaurant_probe_def nested_offers_def
  py_extend_def dget_def py_or_def offers_document_def half_off_def

text \<open>
  Claim C2, as the code has it. For every document, whatever its shape,
  \<open>parse_menu_from_data\<close> and \<open>extract_offers_from_data\<close> return a list and never
  raise. The menu parser returns the empty list on every document that has no menu group,
  and the offer parser returns the empty list on every document that has no offer list.
  Every document none of whose cards is a mapping is both: the empty documents \<^verbatim>\<open>{}\<close>
  and \<^verbatim>\<open>{"data": {}}\<close>, a document or a \<^verbatim>\<open>data\<close> member that is not a mapping, a
  \<^verbatim>\<open>cards\<close> member that is not iterable or holds no mapping. So is, for one,
  \<^verbatim>\<open>{"data": {"cards": [{"card": 5}]}}\<close>, whose only card is a mapping.
\<close>

theorem parsers_never_raise:
  "(\<exists>items. parse_menu_from_data str_of data = Inr items) \<and>
   (\<exists>offers. extract_offers_from_data data = Inr offers) \<and>
   (no_menu_group data \<longrightarrow> parse_menu_from_data str_of data = Inr []) \<and>
   (no_offer_list data \<longrightarrow> extract_offers_from_data data = Inr []) \<and>
   (no_card_is_mapping data \<longrightarrow> no_menu_group data \<and> no_offer_list data)"
  using menu_empty offers_empty no_mapping_no_group no_mapping_no_offers
  by (auto simp: parse_menu_from_data_def extract_offers_from_data_def split: prod.splits)

theorem parsers_never_raise_witness:
  "(no_card_is_mapping (JObj []) \<and>
    parse_menu_from_data (\<lambda>x. []) (JObj []) = Inr [] \<and>
    extract_offers_from_data (JObj []) = Inr []) \<and>
   (no_card_is_mapping (JObj [(''data'', JObj [])]) \<and>
    parse_menu_from_data (\<lambda>x. []) (JObj [(''data'', JObj [])]) = Inr [] \<and>
    extract_offers_from_data (JObj [(''data'', JObj [])]) = Inr []) \<and>
   (no_card_is_mapping (JObj [(''data'', JList [JInt 1])]) \<and>
    parse_menu_from_data (\<lambda>x. []) (JObj [(''data'', JList [JInt 1])]) = Inr [] \<and>
    extract_offers_from_data (JObj [(''data'', JList [JInt 1])]) = Inr []) \<and>
   (no_card_is_mapping (JObj [(''data'', JObj [(''cards'', JList [JStr ''x'', JNull])])]) \<and>
    parse_menu_from_data (\<lambda>x. []) (JObj [(''data'', JObj [(''cards'', JList [JStr ''x'', JNull])])])
      = Inr [] \<and>
    extract_offers_from_data (JObj [(''data'', JObj [(''cards'', JList [JStr ''x'', JNull])])])
      = Inr []) \<and>
   (\<not> no_card_is_mapping
        (JObj [(''data'', JObj [(''cards'', JList [JObj [(''card'', JInt 5)]])])]) \<and>
    no_menu_group (JObj [(''data'', JObj [(''cards'', JList [JObj [(''card'', JInt 5)]])])]) \<and>
    no_offer_list (JObj [(''data'', JObj [(''cards'', JList [JObj [(''card'', JInt 5)]])])]) \<and>
    parse_menu_from_data (\<lambda>x. [])
        (JObj [(''data'', JObj [(''cards'', JList [JObj [(''card'', JInt 5)]])])]) = Inr [] \<and>
    extract_offers_from_data
        (JObj [(''data'', JObj [(''cards'', JList [JObj [(''card'', JInt 5)]])])]) = Inr []) \<and>
   (\<exists>items. parse_menu_from_data (\<lambda>x. []) (menu_document ''Mains'' [item_card burger, JStr ''x''])
      = Inr items) \<and>
   (\<exists>offers. extract_offers_from_data (offers_document [half_off, JStr ''x'']) = Inr offers)"
proof -
  have w1: "no_card_is_mapping (JObj [])"
    by (simp add: no_card_is_mapping_def cards_of_def dget_def)
  have w2: "no_card_is_mapping (JObj [(''data'', JObj [])])"
    by (simp add: no_card_is_mapping_def cards_of_def dget_def)
  have w3: "no_card_is_mapping (JObj [(''data'', JList [JInt 1])])"
    by (simp add: no_card_is_mapping_def cards_of_def dget_def)
  have w4: "no_card_is_mapping (JObj [(''data'', JObj [(''cards'', JList [JStr ''x'', JNull])])])"
    by (simp add: no_card_is_mapping_def cards_of_def dget_def)
  have w5: "\<not> no_card_is_mapping
        (JObj [(''data'', JObj [(''cards'', JList [JObj [(''card'', JInt 5)]])])])"
    by (simp add: no_card_is_mapping_def cards_of_def dget_def)
  have w6: "no_menu_group (JObj [(''data'', JObj [(''cards'', JList [JObj [(''card'', JInt 5)]])])])"
    by (simp add: no_menu_group_def no_group_def grouped_probe_def cards_of_def dget_def)
  have w7: "no_offer_list (JObj [(''data'', JObj [(''cards'', JList [JObj [(''card'', JInt 5)]])])])"
    by (simp add: no_offer_list_def no_offers_def card_offers_def cards_of_def dget_def)
  show ?thesis
    using w1 w2 w3 w4 w5 w6 w7
      parsers_never_raise [of "\<lambda>x. []" "JObj []"]
      parsers_never_raise [of "\<lambda>x. []" "JObj [(''data'', JObj [])]"]
      parsers_never_raise [of "\<lambda>x. []" "JObj [(''data'', JList [JInt 1])]"]
      parsers_never_raise [of "\<lambda>x. []" "JObj [(''data'', JObj [(''cards'', JList [JStr ''x'', JNull])])]"]
      parsers_never_raise [of "\<lambda>x. []"
        "JObj [(''data'', JObj [(''cards'', JList [JObj [(''card'', JInt 5)]])])]"]
      parsers_never_raise [of "\<lambda>x. []" "menu_document ''Mains'' [item_card burger, JStr ''x'']"]
      parsers_never_raise [of "\<lambda>x. []" "offers_document [half_off, JStr ''x'']"]
    by blast
qed

text \<open>
  The claim as stated says that both parsers return the empty sequence on a malformed
  document. These two documents have a string where a mapping is expected, and neither
  result is empty: a menu whose item cards are the card of a dish and then a string gives
  the record of the dish, and an offer list that holds an offer and then a string gives
  the record of the offer.
\<close>

theorem malformed_document_counterexample:
  "\<not> is_dict (JStr ''x'') \<and>
   parse_menu_from_data (\<lambda>x. []) (menu_document ''Mains'' [item_card burger, JStr ''x''])
     = Inr [JObj
        [(''res_id'', JStr ''42''), (''restaurant'', JStr ''Test Diner''),
         (''subzone'', JStr ''Andheri''), (''category'', JStr ''Mains''),
         (''dish_name'', JStr ''Burger''), (''description'', JStr ''''),
         (''base_price'', JFloat 150), (''final_price'', JFloat 120),
         (''flashSale'', JStr ''ON''), (''inStock'', JBool True),
         (''image'', JNull), (''variants'', JList [])]] \<and>
   extract_offers_from_data (offers_document [half_off, JStr ''x''])
     = Inr [JObj
          [(''res_id'', JNull),
           (''restaurant'', JStr ''''),
           (''subzone'', JStr ''''),
           (''title'', JStr ''50% OFF''),
           (''code'', JStr ''HALF''),
           (''description'', JStr ''''),
           (''discount'', JStr ''''),
           (''image'', JStr no_logo)]]"
proof -
  have "parse_menu_from_data (\<lambda>x. []) (menu_document ''Mains'' [item_card burger, JStr ''x''])
     = Inr [JObj
        [(''res_id'', JStr ''42''), (''restaurant'', JStr ''Test Diner''),
         (''subzone'', JStr ''Andheri''), (''category'', JStr ''Mains''),
         (''dish_name'', JStr ''Burger''), (''description'', JStr ''''),
         (''base_price'', JFloat 150), (''final_price'', JFloat 120),
         (''flashSale'', JStr ''ON''), (''inStock'', JBool True),
         (''image'', JNull), (''variants'', JList [])]]"
    by (simp add: burger_def menu_defs float_simps)
  moreover have "extract_offers_from_data (offers_document [half_off, JStr ''x''])
     = Inr [JObj
          [(''res_id'', JNull),
           (''restaurant'', JStr ''''),
           (''subzone'', JStr ''''),
           (''title'', JStr ''50% OFF''),
           (''code'', JStr ''HALF''),
           (''description'', JStr ''''),
           (''discount'', JStr ''''),
           (''image'', JStr no_logo)]]"
    by (simp add: offers_defs)
  ultimately show ?thesis by simp
qed

section \<open>Reconciliation of offers\<close>

text \<open>The boolean mask: keeping the rows whose \<^verbatim>\<open>match\<close> cell is false and dropping the
  column is filtering by the negated test.\<close>

lemma mask_filter:
  "map fst (filter (\<lambda>rm. \<not> snd rm) (zip xs (map P xs))) = filter (\<lambda>x. \<not> P x) xs"
  by (induction xs) simp_all

text \<open>
  Claim C7. Given a non-empty scraped collection and a reference collection, the
  reconciler trims surrounding whitespace from the title and the code of every record of
  both collections (the comparison is otherwise exact, so case-sensitive) and returns
  exactly the scraped offers, so normalised, for which no reference offer has an equal
  (title, code) pair, in scraped order. The rows returned are offer records: the
  \<^verbatim>\<open>match\<close> column is not part of them.
\<close>

theorem compare_offers_mismatches:
  assumes "scraped \<noteq> []"
  shows "compare_offers str_of reference scraped =
           MismatchResponse (mismatches_spec str_of reference scraped)"
proof -
  let ?n = "\<lambda>s. s\<lparr>title := normalize_cell str_of (title s),
                    code := normalize_cell str_of (code s)\<rparr>"
  let ?ref = "map (\<lambda>r. (normalize_cell str_of (fst r), normalize_cell str_of (snd r))) reference"
  let ?P = "\<lambda>row. list_ex (\<lambda>r. fst r = title row \<and> snd r = code row) ?ref"
  have "compare_offers str_of reference scraped =
      MismatchResponse (filter (\<lambda>row. \<not> ?P row) (map ?n scraped))"
    using assms by (simp add: compare_offers_def Let_def mask_filter)
  also have "filter (\<lambda>row. \<not> ?P row) (map ?n scraped) = mismatches_spec str_of reference scraped"
    by (simp add: mismatches_spec_def filter_map comp_def list_ex_iff)
  finally show ?thesis .
qed

theorem compare_offers_mismatches_witness:
  "compare_offers text_of [(JStr '' 50% OFF '', JStr ''HALF'')]
     [sample_offer ''50% OFF'' ''HALF '', sample_offer ''50% off'' ''HALF'',
      sample_offer ''Free Delivery '' '''']
   = MismatchResponse (mismatches_spec text_of [(JStr '' 50% OFF '', JStr ''HALF'')]
       [sample_offer ''50% OFF'' ''HALF '', sample_offer ''50% off'' ''HALF'',
        sample_offer ''Free Delivery '' '''']) \<and>
   mismatches_spec text_of [(JStr '' 50% OFF '', JStr ''HALF'')]
       [sample_offer ''50% OFF'' ''HALF '', sample_offer ''50% off'' ''HALF'',
        sample_offer ''Free Delivery '' '''']
   = [sample_offer ''50% off'' ''HALF'', sample_offer ''Free Delivery'' '''']"
proof -
  have "[sample_offer ''50% OFF'' ''HALF '', sample_offer ''50% off'' ''HALF'',
         sample_offer ''Free Delivery '' ''''] \<noteq> []"
    by simp
  from compare_offers_mismatches [OF this, of text_of "[(JStr '' 50% OFF '', JStr ''HALF'')]"]
  show ?thesis
    by (simp add: mismatches_spec_def sample_offer_def normalize_cell_def text_of_def
        strip_def is_space_def)
qed

text \<open>
  Claim C8. With no scraped offer the reconciler answers with the error
  \<^verbatim>\<open>No offers scraped\<close> (status 404); with at least one scraped offer it answers with a
  list of mismatches. The error is a different answer from the empty list of mismatches.
\<close>

theorem no_offers_scraped_signal:
  "(scraped = [] \<longrightarrow>
      compare_offers str_of reference scraped = ErrorResponse ''No offers scraped'' 404) \<and>
   (scraped \<noteq> [] \<longrightarrow>
      (\<exists>ms. compare_offers str_of reference scraped = MismatchResponse ms)) \<and>
   ErrorResponse ''No offers scraped'' 404 \<noteq> MismatchResponse []"
  by (simp add: compare_offers_def Let_def)

theorem no_offers_scraped_signal_witness:
  "compare_offers text_of [(JStr ''50% OFF'', JStr ''HALF'')] []
     = ErrorResponse ''No offers scraped'' 404 \<and>
   compare_offers text_of [(JStr ''50% OFF'', JStr ''HALF'')] [sample_offer ''50% OFF'' ''HALF'']
     = MismatchResponse [] \<and>
   compare_offers text_of [(JStr ''50% OFF'', JStr ''HALF'')] []
     \<noteq> compare_offers text_of [(JStr ''50% OFF'', JStr ''HALF'')] [sample_offer ''50% OFF'' ''HALF'']"
proof -
  have z: "compare_offers text_of [(JStr ''50% OFF'', JStr ''HALF'')] [sample_offer ''50% OFF'' ''HALF'']
     = MismatchResponse []"
    by (simp add: compare_offers_def Let_def sample_offer_def normalize_cell_def text_of_def
        strip_def is_space_def)
  from no_offers_scraped_signal [of "[]" text_of "[(JStr ''50% OFF'', JStr ''HALF'')]"] z
  show ?thesis by simp
qed

section \<open>The variant flattener on the store\<close>

lemma upt_head: "[n ..< Suc (n + k)] = n # [Suc n ..< Suc (n + k)]"
  by (rule upt_conv_Cons) simp

text \<open>The loop over the variants of the item at \<open>a\<close>: one new object per variant, and
  the rows are the new addresses in order.\<close>

lemma variant_loop:
  assumes "a < length h" and "list_all is_dict vars"
  shows "for_each (variant_row a) vars (h, rows) =
           ((h @ map (\<lambda>v. dict_update (h ! a) (fields_of v)) vars,
             rows @ [length h ..< length h + length vars]), None)"
  using assms
proof (induction vars arbitrary: h rows)
  case Nil
  then show ?case by simp
next
  case (Cons v vars)
  from Cons.prems obtain var where v: "v = JObj var" by (cases v) simp_all
  let ?h = "h @ [dict_update (h ! a) (variant_fields var)]"
  have a: "a < length ?h" using Cons.prems by simp
  have nth: "?h ! a = h ! a" using Cons.prems by (simp add: nth_append)
  from Cons.prems have "list_all is_dict vars" by simp
  from Cons.IH [OF a this, of "rows @ [length h]"]
  have "for_each (variant_row a) vars (?h, rows @ [length h]) =
          ((?h @ map (\<lambda>v. dict_update (h ! a) (fields_of v)) vars,
            (rows @ [length h]) @ [Suc (length h) ..< Suc (length h) + length vars]), None)"
    by (simp add: nth)
  then show ?case
    by (simp add: v fields_of_def upt_head del: upt_Suc)
qed

lemma dish_record_variants:
  "dish_record d \<Longrightarrow> dget d ''variants'' (JList []) = JList (variants_of d) \<and>
     list_all is_dict (variants_of d)"
  by (auto simp: dish_record_def variants_of_def split: json.splits)

lemma flatten_item_closed:
  assumes "a < length h" and "dish_record (h ! a)"
  shows "flatten_item a (h, rows) =
           ((h[a := dict_del ''variants'' (h ! a)] @ rows_of (h ! a),
             rows @ [length h ..< length h + length (rows_of (h ! a))]), None)"
proof -
  let ?h = "h[a := dict_del ''variants'' (h ! a)]"
  from dish_record_variants [OF assms(2)]
  have vs: "dget (h ! a) ''variants'' (JList []) = JList (variants_of (h ! a))"
    and ds: "list_all is_dict (variants_of (h ! a))" by simp_all
  have a: "a < length ?h" using assms(1) by simp
  have nth: "?h ! a = dict_del ''variants'' (h ! a)" using assms(1) by simp
  show ?thesis
  proof (cases "variants_of (h ! a) = []")
    case True
    then show ?thesis
      using assms(1) by (simp add: vs rows_of_def Let_def)
  next
    case False
    from variant_loop [OF a ds, of rows]
    show ?thesis
      using False by (simp add: vs rows_of_def Let_def nth)
  qed
qed

lemma length_pop_variants [simp]: "length (pop_variants a h) = length h"
  by (simp add: pop_variants_def)

lemma length_pop_all [simp]: "length (pop_all items h) = length h"
  by (induction items arbitrary: h) (simp_all add: pop_all_def)

lemma pop_variants_append:
  "a < length h \<Longrightarrow> pop_variants a (h @ xs) = pop_variants a h @ xs"
  by (simp add: pop_variants_def list_update_append nth_append)

lemma pop_all_append:
  "\<forall>a\<in>set items. a < length h \<Longrightarrow> pop_all items (h @ xs) = pop_all items h @ xs"
proof (induction items arbitrary: h)
  case Nil
  then show ?case by (simp add: pop_all_def)
next
  case (Cons a items)
  from Cons.prems have "\<forall>b\<in>set items. b < length (pop_variants a h)" by simp
  from Cons.IH [OF this] Cons.prems show ?case
    by (simp add: pop_all_def pop_variants_append)
qed

lemma rows_from_append:
  "\<forall>a\<in>set items. a < length h \<Longrightarrow> rows_from (h @ xs) items = rows_from h items"
proof (induction items arbitrary: h)
  case Nil
  then show ?case by simp
next
  case (Cons a items)
  from Cons.prems have "\<forall>b\<in>set items. b < length (pop_variants a h)" by simp
  from Cons.IH [OF this] Cons.prems show ?case
    by (simp add: pop_variants_append nth_append)
qed

lemma dget_dict_del: "dget (dict_del k d) k x = x"
proof -
  have "map_of (filter (\<lambda>kv. fst kv \<noteq> k) d) k = None"
    by (induction d) auto
  then show ?thesis by (simp add: dget_def dict_del_def)
qed

lemma dish_record_popped: "dish_record (dict_del ''variants'' d)"
  by (simp add: dish_record_def dget_dict_del)

lemma dish_record_pop_variants:
  assumes "b < length h" and "dish_record (h ! b)"
  shows "dish_record (pop_variants a h ! b)"
  using assms by (cases "a = b") (simp_all add: pop_variants_def dish_record_popped)

text \<open>The loop over the items, in closed form: the store is the old one with the variant
  lists removed, followed by the rows; the list returned holds the addresses of the rows.\<close>

lemma flatten_loop_closed:
  assumes "\<forall>a\<in>set items. a < length h \<and> dish_record (h ! a)"
  shows "for_each flatten_item items (h, rows) =
           ((pop_all items h @ rows_from h items,
             rows @ [length h ..< length h + length (rows_from h items)]), None)"
  using assms
proof (induction items arbitrary: h rows)
  case Nil
  then show ?case by (simp add: pop_all_def)
next
  case (Cons a items)
  let ?hp = "pop_variants a h"
  let ?h1 = "?hp @ rows_of (h ! a)"
  let ?n = "length (rows_of (h ! a))"
  from Cons.prems have a: "a < length h" and d: "dish_record (h ! a)" by simp_all
  have step: "flatten_item a (h, rows) = ((?h1, rows @ [length h ..< length h + ?n]), None)"
    using flatten_item_closed [OF a d] by (simp add: pop_variants_def)
  have valid: "\<forall>b\<in>set items. b < length ?hp" using Cons.prems by simp
  have wf: "\<forall>b\<in>set items. b < length ?h1 \<and> dish_record (?h1 ! b)"
    using Cons.prems by (auto simp: nth_append dish_record_pop_variants)
  from Cons.IH [OF wf, of "rows @ [length h ..< length h + ?n]"]
  have "for_each flatten_item items (?h1, rows @ [length h ..< length h + ?n]) =
          ((pop_all items ?hp @ rows_of (h ! a) @ rows_from ?hp items,
            rows @ [length h ..< length h + ?n] @
              [length h + ?n ..< length h + ?n + length (rows_from ?hp items)]), None)"
    by (simp add: pop_all_append [OF valid] rows_from_append [OF valid])
  moreover have "[length h ..< length h + ?n] @
              [length h + ?n ..< length h + ?n + length (rows_from ?hp items)]
            = [length h ..< length h + (?n + length (rows_from ?hp items))]"
    using upt_add_eq_append [of "length h" "length h + ?n" "length (rows_from ?hp items)"]
    by (simp add: add.assoc)
  ultimately show ?case
    by (simp add: step pop_all_def del: flatten_item.simps)
qed

lemma flatten_closed:
  assumes "\<forall>a\<in>set items. a < length h \<and> dish_record (h ! a)"
  shows "flatten_items_with_variants h items =
           (pop_all items h @ rows_from h items,
            Inr [length h ..< length h + length (rows_from h items)])"
  using flatten_loop_closed [OF assms, of "[]"]
  by (simp add: flatten_items_with_variants_def)

lemma pop_all_nth:
  "b < length h \<Longrightarrow>
     pop_all items h ! b = (if b \<in> set items then dict_del ''variants'' (h ! b) else h ! b)"
proof (induction items arbitrary: h)
  case Nil
  then show ?case by (simp add: pop_all_def)
next
  case (Cons a items)
  have idem: "dict_del ''variants'' (dict_del ''variants'' d) = dict_del ''variants'' d" for d
    by (simp add: dict_del_def)
  from Cons.prems have "b < length (pop_variants a h)" by simp
  from Cons.IH [OF this] have
    "pop_all items (pop_variants a h) ! b =
       (if b \<in> set items then dict_del ''variants'' (pop_variants a h ! b)
        else pop_variants a h ! b)" .
  moreover have "pop_all (a # items) h = pop_all items (pop_variants a h)"
    by (simp add: pop_all_def)
  ultimately show ?case
    using Cons.prems by (cases "a = b") (auto simp: pop_variants_def idem)
qed

text \<open>When no address comes twice, every item is flattened as it was before the call.\<close>

lemma rows_from_distinct:
  "distinct items \<Longrightarrow> \<forall>a\<in>set items. a < length h \<Longrightarrow>
     rows_from h items = concat (map (\<lambda>a. rows_of (h ! a)) items)"
proof (induction items arbitrary: h)
  case Nil
  then show ?case by simp
next
  case (Cons a items)
  from Cons.prems have "distinct items" and v: "\<forall>b\<in>set items. b < length (pop_variants a h)"
    by simp_all
  from Cons.IH [OF this]
  have "rows_from (pop_variants a h) items =
          concat (map (\<lambda>b. rows_of (pop_variants a h ! b)) items)" .
  also have "map (\<lambda>b. rows_of (pop_variants a h ! b)) items = map (\<lambda>b. rows_of (h ! b)) items"
  proof (rule map_cong [OF refl])
    fix b
    assume "b \<in> set items"
    with Cons.prems have "a \<noteq> b" by auto
    then show "rows_of (pop_variants a h ! b) = rows_of (h ! b)"
      by (simp add: pop_variants_def)
  qed
  finally show ?case by simp
qed

lemma length_rows_of: "length (rows_of d) = max 1 (length (variants_of d))"
  by (cases "variants_of d") (simp_all add: rows_of_def Let_def)

lemma map_nth_appended:
  "map (\<lambda>r. (A @ R) ! r) [length A ..< length A + length R] = R"
proof -
  have "[length A ..< length A + length R] = map (\<lambda>i. i + length A) [0 ..< length R]"
    by (simp add: map_add_upt add.commute)
  then have "map (\<lambda>r. (A @ R) ! r) [length A ..< length A + length R]
      = map (\<lambda>i. R ! i) [0 ..< length R]"
    by (simp add: comp_def nth_append)
  then show ?thesis by (simp add: map_nth)
qed

lemma map_of_dict_del:
  "map_of (dict_del k d) k' = (if k' = k then None else map_of d k')"
  by (induction d) (auto simp: dict_del_def)

lemma map_of_dict_set:
  "map_of (dict_set k v d) k' = (if k' = k then Some v else map_of d k')"
  by (induction d) auto

lemma empty_row_absent: "variant_fields_absent (dict_update item empty_variant_fields)"
  by (simp add: variant_fields_absent_def dict_update_def empty_variant_fields_def map_of_dict_set)

lemma rows_of_no_variants:
  "variants_of d = [] \<Longrightarrow> list_all variant_fields_absent (rows_of d)"
  by (simp add: rows_of_def Let_def empty_row_absent)

lemma dish_pizza: "dish_record pizza"
  by (simp add: dish_record_def pizza_def dget_def)

lemma dish_soup: "dish_record soup"
  by (simp add: dish_record_def soup_def dget_def)

lemma length_variants_pizza: "length (variants_of pizza) = 2"
  by (simp add: variants_of_def pizza_def dget_def)

lemma variants_soup: "variants_of soup = []"
  by (simp add: variants_of_def soup_def dget_def)

lemma variants_of_popped: "variants_of (dict_del ''variants'' d) = []"
  by (simp add: variants_of_def dget_dict_del)

text \<open>
  Claim C5, as the code has it. For every input list of dish records in which no record
  object comes twice, the flattener returns as many rows as the sum over the input of
  max(1, number of variants of that dish): the rows are, dish after dish, those the
  specification asks for, a dish with N \<open>\<ge>\<close> 1 variants gives N rows, and a dish with
  no variants gives one row whose five variant fields are \<^verbatim>\<open>None\<close>.
\<close>

theorem flatten_row_count:
  assumes "distinct items" and "\<forall>a\<in>set items. a < length h \<and> dish_record (h ! a)"
  shows "\<exists>h' rows. flatten_items_with_variants h items = (h', Inr rows) \<and>
           length rows = sum_list (map (\<lambda>a. max 1 (length (variants_of (h ! a)))) items) \<and>
           map (\<lambda>r. h' ! r) rows = concat (map (\<lambda>a. rows_of (h ! a)) items) \<and>
           (\<forall>a\<in>set items.
              length (rows_of (h ! a)) = max 1 (length (variants_of (h ! a))) \<and>
              (variants_of (h ! a) = [] \<longrightarrow> list_all variant_fields_absent (rows_of (h ! a))))"
proof -
  let ?R = "concat (map (\<lambda>a. rows_of (h ! a)) items)"
  from assms have R: "rows_from h items = ?R"
    by (simp add: rows_from_distinct)
  have "length ?R = sum_list (map (\<lambda>a. max 1 (length (variants_of (h ! a)))) items)"
    by (simp add: length_concat comp_def length_rows_of)
  moreover have "map (\<lambda>r. (pop_all items h @ ?R) ! r) [length h ..< length h + length ?R] = ?R"
    using map_nth_appended [of "pop_all items h" ?R] by simp
  ultimately show ?thesis
    using flatten_closed [OF assms(2)] R
    by (simp add: length_rows_of rows_of_no_variants)
qed

theorem flatten_row_count_witness:
  "distinct [0, 1 :: nat] \<and> dish_record pizza \<and> dish_record soup \<and>
   (\<exists>h' rows. flatten_items_with_variants [pizza, soup] [0, 1] = (h', Inr rows) \<and>
      length rows = 3 \<and>
      map (\<lambda>r. h' ! r) rows = rows_of pizza @ rows_of soup \<and>
      length (rows_of pizza) = 2 \<and>
      list_all variant_fields_absent (rows_of soup))"
proof -
  have wf: "\<forall>a\<in>set [0, 1]. a < length [pizza, soup] \<and> dish_record ([pizza, soup] ! a)"
    by (simp add: dish_pizza dish_soup)
  have d: "distinct [0, 1 :: nat]" by simp
  from flatten_row_count [OF d wf] obtain h' rows where
    r: "flatten_items_with_variants [pizza, soup] [0, 1] = (h', Inr rows)"
    and n: "length rows =
      sum_list (map (\<lambda>a. max 1 (length (variants_of ([pizza, soup] ! a)))) [0, 1])"
    and c: "map (\<lambda>r. h' ! r) rows = concat (map (\<lambda>a. rows_of ([pizza, soup] ! a)) [0, 1])"
    and f: "\<forall>a\<in>set [0, 1].
              length (rows_of ([pizza, soup] ! a)) = max 1 (length (variants_of ([pizza, soup] ! a))) \<and>
              (variants_of ([pizza, soup] ! a) = [] \<longrightarrow>
                 list_all variant_fields_absent (rows_of ([pizza, soup] ! a)))"
    by blast
  from n have "length rows = 3"
    by (simp add: length_variants_pizza variants_soup)
  moreover from c have "map (\<lambda>r. h' ! r) rows = rows_of pizza @ rows_of soup"
    by simp
  moreover from f have "length (rows_of pizza) = 2"
    and "list_all variant_fields_absent (rows_of soup)"
    by (simp_all add: length_variants_pizza variants_soup)
  ultimately show ?thesis
    using r d dish_pizza dish_soup by blast
qed

text \<open>
  The claim as stated, for every input list, fails when the same record object is in the
  list twice: its variant list is removed at the first visit, so the second visit gives
  one row. A dish with two variants listed twice gives 3 rows, not 4.
\<close>

theorem flatten_row_count_counterexample:
  "\<exists>h' rows. flatten_items_with_variants [pizza] [0, 0] = (h', Inr rows) \<and>
     length rows = 3 \<and>
     sum_list (map (\<lambda>a. max 1 (length (variants_of ([pizza] ! a)))) [0, 0]) = 4"
proof -
  have "\<forall>a\<in>set [0, 0]. a < length [pizza] \<and> dish_record ([pizza] ! a)"
    by (simp add: dish_pizza)
  from flatten_closed [OF this]
  have "flatten_items_with_variants [pizza] [0, 0] =
      (pop_all [0, 0] [pizza] @ rows_from [pizza] [0, 0],
       Inr [1 ..< 1 + length (rows_from [pizza] [0, 0])])"
    by simp
  moreover have "length (rows_from [pizza] [0, 0]) = 3"
    by (simp add: pop_variants_def length_rows_of length_variants_pizza variants_of_popped)
  ultimately show ?thesis
    by (simp add: length_variants_pizza)
qed

text \<open>
  Claim C9. The flattener removes the variant list from every input dish record and
  changes nothing else in the store that was there before the call: an input record
  keeps every other field with its value, a record that is not in the input is
  untouched. Every row returned is a new object, at an address the store did not have
  before, and the rows are all the new objects.
\<close>

theorem flatten_frame:
  assumes "\<forall>a\<in>set items. a < length h \<and> dish_record (h ! a)"
  shows "\<exists>h' rows. flatten_items_with_variants h items = (h', Inr rows) \<and>
           length h \<le> length h' \<and> rows = [length h ..< length h'] \<and>
           (\<forall>a<length h. h' ! a =
              (if a \<in> set items then dict_del ''variants'' (h ! a) else h ! a)) \<and>
           (\<forall>a\<in>set items. map_of (h' ! a) ''variants'' = None \<and>
              (\<forall>k. k \<noteq> ''variants'' \<longrightarrow> map_of (h' ! a) k = map_of (h ! a) k))"
proof -
  let ?h' = "pop_all items h @ rows_from h items"
  have old: "?h' ! a = (if a \<in> set items then dict_del ''variants'' (h ! a) else h ! a)"
    if "a < length h" for a
    using that by (simp add: nth_append pop_all_nth)
  have "map_of (?h' ! a) ''variants'' = None \<and>
        (\<forall>k. k \<noteq> ''variants'' \<longrightarrow> map_of (?h' ! a) k = map_of (h ! a) k)"
    if "a \<in> set items" for a
  proof -
    from that assms have "a < length h" by simp
    from old [OF this] that show ?thesis by (simp add: map_of_dict_del)
  qed
  with old show ?thesis
    using flatten_closed [OF assms] by simp
qed

theorem flatten_frame_witness:
  "dish_record pizza \<and> dish_record soup \<and>
   (\<exists>h' rows. flatten_items_with_variants [pizza, soup] [0] = (h', Inr rows) \<and>
      2 \<le> length h' \<and> rows = [2 ..< length h'] \<and>
      h' ! 0 = [(''dish_name'', JStr ''Pizza''), (''base_price'', JFloat 250)] \<and>
      h' ! 1 = soup \<and>
      map_of (h' ! 0) ''variants'' = None \<and>
      map_of (h' ! 0) ''dish_name'' = map_of pizza ''dish_name'')"
proof -
  have wf: "\<forall>a\<in>set [0]. a < length [pizza, soup] \<and> dish_record ([pizza, soup] ! a)"
    by (simp add: dish_pizza)
  from flatten_frame [OF wf] obtain h' rows where
    r: "flatten_items_with_variants [pizza, soup] [0] = (h', Inr rows)"
    and l: "length [pizza, soup] \<le> length h'"
    and rows: "rows = [length [pizza, soup] ..< length h']"
    and old: "\<forall>a<length [pizza, soup]. h' ! a =
              (if a \<in> set [0] then dict_del ''variants'' ([pizza, soup] ! a)
               else [pizza, soup] ! a)"
    and fields: "\<forall>a\<in>set [0]. map_of (h' ! a) ''variants'' = None \<and>
              (\<forall>k. k \<noteq> ''variants'' \<longrightarrow> map_of (h' ! a) k = map_of ([pizza, soup] ! a) k)"
    by blast
  from old [rule_format, of 0]
  have h0: "h' ! 0 = [(''dish_name'', JStr ''Pizza''), (''base_price'', JFloat 250)]"
    by (simp add: dict_del_def pizza_def)
  from old [rule_format, of 1] have h1: "h' ! 1 = soup" by simp
  from fields have "map_of (h' ! 0) ''variants'' = None"
    and "map_of (h' ! 0) ''dish_name'' = map_of pizza ''dish_name''"
    by simp_all
  with r l rows h0 h1 show ?thesis
    by (simp add: dish_pizza dish_soup numeral_2_eq_2)
qed

end
